theory Spec2Isabelle
  imports Complex_Main
begin

section \<open>Data model (src/types.ts)\<close>

text \<open>
  The status tag of a booking, with the five string literals of \<^verbatim>\<open>Booking['status']\<close>.
\<close>

datatype status = pending | confirmed | denied | canceled_by_user | canceled_by_owner

text \<open>
  A JavaScript string is modelled as a \<^typ>\<open>string\<close>, one \<^typ>\<open>char\<close> per code unit (code units
  below 256, which covers every character the time and date formats use). A JavaScript
  number that is only stored and copied (\<^verbatim>\<open>rate\<close>) is a \<^typ>\<open>rat\<close>. The optional
  \<^verbatim>\<open>createdAt\<close> timestamp of a booking is left out: no operation below reads it.
\<close>

record user =
  id :: string
  name :: string
  email :: string
  avatarUrl :: "string option"
  phoneNumber :: "string option"

record booking =
  id :: string
  listingId :: string
  userId :: string
  bookerName :: string
  bookerEmail :: string
  ownerId :: string
  ownerEmail :: string
  location :: string
  date :: string
  startTime :: string
  endTime :: string
  rate :: rat
  status :: status

text \<open>
  \<^verbatim>\<open>Omit<Listing, 'id' | 'ownerId'>\<close> is the record \<open>listingData\<close>; a \<^verbatim>\<open>Listing\<close> extends it
  with the two omitted fields.
\<close>

record listingData =
  address :: string
  city :: string
  state :: string
  zipCode :: string
  country :: string
  rate :: rat
  date :: string
  startTime :: string
  endTime :: string
  contactEmail :: string
  description :: string

record listing = listingData +
  id :: string
  ownerId :: string


section \<open>JavaScript primitives used by the code\<close>

text \<open>
  A number that may be \<^verbatim>\<open>NaN\<close> is an \<^typ>\<open>int option\<close>, \<open>None\<close> being \<^verbatim>\<open>NaN\<close>. Every
  comparison with \<^verbatim>\<open>NaN\<close> is false.
\<close>

definition isNaN :: "int option \<Rightarrow> bool" where
  "isNaN x = (x = None)"

definition num_lt :: "int option \<Rightarrow> int option \<Rightarrow> bool" where
  "num_lt a b = (case a of None \<Rightarrow> False | Some x \<Rightarrow> (case b of None \<Rightarrow> False | Some y \<Rightarrow> x < y))"

definition num_gt :: "int option \<Rightarrow> int option \<Rightarrow> bool" where
  "num_gt a b = (case a of None \<Rightarrow> False | Some x \<Rightarrow> (case b of None \<Rightarrow> False | Some y \<Rightarrow> x > y))"

text \<open>
  \<^verbatim>\<open><\<close> and \<^verbatim>\<open>>\<close> on two strings compare them lexicographically by code unit; a proper
  prefix is smaller.
\<close>

fun str_lt :: "string \<Rightarrow> string \<Rightarrow> bool" where
  "str_lt [] [] = False"
| "str_lt [] (y # ys) = True"
| "str_lt (x # xs) [] = False"
| "str_lt (x # xs) (y # ys) =
     (if (of_char x :: nat) < of_char y then True
      else if (of_char y :: nat) < of_char x then False
      else str_lt xs ys)"

definition str_gt :: "string \<Rightarrow> string \<Rightarrow> bool" where
  "str_gt a b = str_lt b a"

text \<open>\<^verbatim>\<open>\d\<close> of a regular expression: the ten ASCII digits.\<close>

definition isDigit :: "char \<Rightarrow> bool" where
  "isDigit c = (48 \<le> (of_char c :: nat) \<and> (of_char c :: nat) \<le> 57)"

definition digitVal :: "char \<Rightarrow> int" where
  "digitVal c = int (of_char c) - 48"

definition digitsVal :: "string \<Rightarrow> int" where
  "digitsVal ds = foldl (\<lambda>n c. 10 * n + digitVal c) 0 ds"

text \<open>
  \<^verbatim>\<open>Number(s)\<close>, for the arguments it is given in this code: the parts of a string that
  passed \<^verbatim>\<open>/^\d{1,2}:\d{2}$/\<close>, which are non-empty strings of digits. On such a string it
  is the decimal value. Any other argument is answered \<^verbatim>\<open>NaN\<close> here; the code never
  passes one.
\<close>

definition Number :: "string \<Rightarrow> int option" where
  "Number s = (if s \<noteq> [] \<and> list_all isDigit s then Some (digitsVal s) else None)"

text \<open>\<^verbatim>\<open>s.split(sep)\<close> for a one-character separator.\<close>

fun split_on :: "char \<Rightarrow> string \<Rightarrow> string list" where
  "split_on sep [] = [[]]"
| "split_on sep (c # cs) =
     (if c = sep then [] # split_on sep cs
      else (case split_on sep cs of
              [] \<Rightarrow> [[c]]
            | p # ps \<Rightarrow> (c # p) # ps))"

text \<open>
  \<^verbatim>\<open>parseInt(s, 10)\<close>: leading white space is skipped, one sign is read, then the longest
  run of digits; no digit gives \<^verbatim>\<open>NaN\<close>. The white space characters below 256 are
  TAB, LF, VT, FF, CR, SP and NBSP. The value is exact (the code's doubles are exact
  below \<open>2 ^ 53\<close>).
\<close>

definition isWhiteSpace :: "char \<Rightarrow> bool" where
  "isWhiteSpace c = ((of_char c :: nat) \<in> {9, 10, 11, 12, 13, 32, 160})"

definition parseInt :: "string \<Rightarrow> int option" where
  "parseInt s =
     (let s1 = dropWhile isWhiteSpace s;
          sign = (case s1 of [] \<Rightarrow> 1 | c # _ \<Rightarrow> if c = CHR ''-'' then - 1 else (1 :: int));
          s2 = (case s1 of [] \<Rightarrow> [] | c # r \<Rightarrow> if c = CHR ''-'' \<or> c = CHR ''+'' then r else s1);
          ds = takeWhile isDigit s2
      in if ds = [] then None else Some (sign * digitsVal ds))"


section \<open>The time parsers\<close>

text \<open>\<^verbatim>\<open>/^\d{1,2}:\d{2}$/.test(timeStr)\<close>: one or two digits, a colon, two digits, nothing else.\<close>

fun test_time_format :: "string \<Rightarrow> bool" where
  "test_time_format [h, c, m1, m2] =
     (isDigit h \<and> c = CHR '':'' \<and> isDigit m1 \<and> isDigit m2)"
| "test_time_format [h1, h2, c, m1, m2] =
     (isDigit h1 \<and> isDigit h2 \<and> c = CHR '':'' \<and> isDigit m1 \<and> isDigit m2)"
| "test_time_format _ = False"

text \<open>
  \<^verbatim>\<open>timeToMinutes\<close> of the application component (src/unnamed/part_003, lines 33-40);
  src/components/ConfirmationModal.tsx (lines 13-20) has the same text. The destructuring \<^verbatim>\<open>[hours, minutes]\<close> reads the first two parts; a missing
  part is \<^verbatim>\<open>undefined\<close>, for which \<^verbatim>\<open>isNaN\<close> holds.
\<close>

definition timeToMinutes :: "string \<Rightarrow> int option" where
  "timeToMinutes timeStr =
     (if timeStr = [] \<or> \<not> test_time_format timeStr then None
      else (case map Number (split_on CHR '':'' timeStr) of
              Some hours # Some minutes # _ \<Rightarrow>
                if hours < 0 \<or> hours > 23 \<or> minutes < 0 \<or> minutes > 59 then None
                else Some (hours * 60 + minutes)
            | _ \<Rightarrow> None))"

text \<open>
  \<^verbatim>\<open>timeToMinutes\<close> of the listing form (src/unnamed/part_001, lines 13-25). Its invalid
  marker is \<open>- 1\<close>, and it has no range check.
\<close>

definition timeToMinutes_ListingForm :: "string \<Rightarrow> int" where
  "timeToMinutes_ListingForm time =
     (case split_on CHR '':'' time of
        [p0, p1] \<Rightarrow>
          (case parseInt p0 of
             None \<Rightarrow> - 1
           | Some hours \<Rightarrow>
               (case parseInt p1 of
                  None \<Rightarrow> - 1
                | Some minutes \<Rightarrow> hours * 60 + minutes))
      | _ \<Rightarrow> - 1)"


section \<open>The durable store and its failures (services/firestoreService, in src/unnamed/part_000)\<close>

text \<open>
  The two collections of the document store, each a list of documents. Document ids are
  unique within a collection; \<open>wf_store\<close> (below) says so.
\<close>

record store =
  bookings :: "booking list"
  listings :: "listing list"

text \<open>
  What the environment decides during one operation: whether a call to the store or to the
  e-mail generator throws, and the id a new document gets.
  \<^item> \<open>getDocs_fails\<close>: the query of this operation throws;
  \<^item> \<open>addDoc_fails\<close>: the insertion throws; \<open>newDocId\<close>: the id of the inserted document;
  \<^item> \<open>updateBooking_fails bid\<close>: \<^verbatim>\<open>updateDoc\<close> on booking \<open>bid\<close> throws;
  \<^item> \<open>updateListing_fails\<close>: \<^verbatim>\<open>updateDoc\<close> on the listing throws;
  \<^item> \<open>deleteDoc_fails\<close>: \<^verbatim>\<open>deleteDoc\<close> throws;
  \<^item> \<open>email_fails i\<close>: the e-mail generator (services/geminiService) throws for the
    booking or listing with id \<open>i\<close>.
\<close>

record env =
  getDocs_fails :: bool
  addDoc_fails :: bool
  newDocId :: string
  updateBooking_fails :: "string \<Rightarrow> bool"
  updateListing_fails :: bool
  deleteDoc_fails :: bool
  email_fails :: "string \<Rightarrow> bool"

text \<open>
  \<^verbatim>\<open>getExistingBookingsForListing\<close> (lines 107-121): the bookings whose \<^verbatim>\<open>listingId\<close> and
  \<^verbatim>\<open>date\<close> equal the arguments; an error of the query is caught and answered \<^verbatim>\<open>[]\<close>.
\<close>

definition getExistingBookingsForListing :: "env \<Rightarrow> store \<Rightarrow> string \<Rightarrow> string \<Rightarrow> booking list" where
  "getExistingBookingsForListing e st lid d =
     (if getDocs_fails e then []
      else filter (\<lambda>b. listingId b = lid \<and> booking.date b = d) (bookings st))"

text \<open>
  \<^verbatim>\<open>getBookingRequestsForOwner\<close> (lines 85-105): the pending bookings of an owner, which
  the profile view offers for approval or denial; an error of the query is caught and
  answered \<^verbatim>\<open>[]\<close>. The sort by creation time is not modelled: the result is in the order
  of the store.
\<close>

definition getBookingRequestsForOwner :: "env \<Rightarrow> store \<Rightarrow> string \<Rightarrow> booking list" where
  "getBookingRequestsForOwner e st oid =
     (if getDocs_fails e then []
      else filter (\<lambda>b. booking.ownerId b = oid \<and> status b = pending) (bookings st))"

text \<open>
  \<^verbatim>\<open>checkForExistingListing\<close> (lines 124-140): the listings with the same address, city,
  zip code and date; an error of the query is caught and answered \<^verbatim>\<open>[]\<close>.
\<close>

definition checkForExistingListing :: "env \<Rightarrow> store \<Rightarrow> 'a listingData_scheme \<Rightarrow> listing list" where
  "checkForExistingListing e st d =
     (if getDocs_fails e then []
      else filter (\<lambda>l. address l = address d \<and> city l = city d \<and> zipCode l = zipCode d
                        \<and> listingData.date l = listingData.date d) (listings st))"

text \<open>
  \<^verbatim>\<open>addListingToFirestore\<close> (lines 142-148): no \<^verbatim>\<open>try\<close>, an error of \<^verbatim>\<open>addDoc\<close> propagates
  (\<open>None\<close>). The result is the store and the new listing.
\<close>

definition addListingToFirestore :: "env \<Rightarrow> store \<Rightarrow> string \<Rightarrow> listingData \<Rightarrow> (store \<times> listing) option" where
  "addListingToFirestore e st owner d =
     (if addDoc_fails e then None
      else (let l = listingData.extend d \<lparr>listing.id = newDocId e, listing.ownerId = owner\<rparr>
            in Some (st\<lparr>listings := listings st @ [l]\<rparr>, l)))"

text \<open>
  \<^verbatim>\<open>updateListingInFirestore\<close> (lines 150-161): \<^verbatim>\<open>updateDoc\<close> overwrites the fields of
  \<open>listingData\<close> in the document and throws when the document does not exist; the error
  is rethrown (\<open>None\<close>).
\<close>

definition overwrite :: "listingData \<Rightarrow> listing \<Rightarrow> listing" where
  "overwrite d l = listingData.extend d \<lparr>listing.id = listing.id l, listing.ownerId = listing.ownerId l\<rparr>"

definition updateListingInFirestore :: "env \<Rightarrow> store \<Rightarrow> string \<Rightarrow> listingData \<Rightarrow> store option" where
  "updateListingInFirestore e st lid d =
     (if updateListing_fails e \<or> lid \<notin> set (map listing.id (listings st)) then None
      else Some (st\<lparr>listings := map (\<lambda>l. if listing.id l = lid then overwrite d l else l) (listings st)\<rparr>))"

text \<open>
  \<^verbatim>\<open>addBookingToFirestore\<close> (lines 163-171): the booking data get the id of the new
  document (the \<open>id\<close> field of the argument stands for the omitted one and is overwritten).
\<close>

definition addBookingToFirestore :: "env \<Rightarrow> store \<Rightarrow> booking \<Rightarrow> (store \<times> booking) option" where
  "addBookingToFirestore e st bookingData =
     (if addDoc_fails e then None
      else (let b = bookingData\<lparr>booking.id := newDocId e\<rparr>
            in Some (st\<lparr>bookings := bookings st @ [b]\<rparr>, b)))"

text \<open>
  \<^verbatim>\<open>updateBookingStatusInFirestore\<close> (lines 173-181): \<^verbatim>\<open>updateDoc\<close> sets the one field
  \<^verbatim>\<open>status\<close> and throws when the document does not exist; the error is rethrown.
\<close>

definition updateBookingStatusInFirestore :: "env \<Rightarrow> store \<Rightarrow> string \<Rightarrow> status \<Rightarrow> store option" where
  "updateBookingStatusInFirestore e st bid s =
     (if updateBooking_fails e bid \<or> bid \<notin> set (map booking.id (bookings st)) then None
      else Some (st\<lparr>bookings := map (\<lambda>b. if booking.id b = bid then b\<lparr>status := s\<rparr> else b) (bookings st)\<rparr>))"

text \<open>
  \<^verbatim>\<open>deleteBookingFromFirestore\<close> (lines 184-192): \<^verbatim>\<open>deleteDoc\<close> removes the document (a
  missing document is no error); an error is rethrown.
\<close>

definition deleteBookingFromFirestore :: "env \<Rightarrow> store \<Rightarrow> string \<Rightarrow> store option" where
  "deleteBookingFromFirestore e st bid =
     (if deleteDoc_fails e then None
      else Some (st\<lparr>bookings := filter (\<lambda>b. booking.id b \<noteq> bid) (bookings st)\<rparr>))"


section \<open>The operations of the application component (src/unnamed/part_003)\<close>

text \<open>
  The toasts the operations show, one constructor per message of the source:
  \<^item> \<open>MustLogInToList\<close>: "You must be logged in to list a driveway."
  \<^item> \<open>DuplicateListing\<close>: "A listing with this address and overlapping times already exists."
  \<^item> \<open>ListedSuccessfully\<close>: "Your driveway has been listed successfully!"
  \<^item> \<open>FailedToList\<close>: "Failed to list your driveway. Please try again."
  \<^item> \<open>MustLogInToUpdate\<close>: "You must be logged in to update a listing."
  \<^item> \<open>ListingUpdated\<close>: "Listing updated successfully!"
  \<^item> \<open>FailedToUpdateListing\<close>: "Failed to update listing. Please try again."
  \<^item> \<open>PleaseLogInToBook\<close>: "Please log in to book a driveway."
  \<^item> \<open>InvalidTimeFormat\<close>: "Invalid time format submitted."
  \<^item> \<open>RequestSent\<close>: "Request sent for ...!"
  \<^item> \<open>BookingRequestFailed\<close>: "Sorry, something went wrong with the booking request."
  \<^item> \<open>ApprovalConflict\<close>: "Approval failed: Conflicts with an existing confirmed booking."
  \<^item> \<open>BookingApproved\<close>: "Booking approved and confirmed!"
  \<^item> \<open>FailedToApprove\<close>: "Failed to approve booking."
  \<^item> \<open>BookingDenied\<close>: "Booking request denied."
  \<^item> \<open>FailedToDeny\<close>: "Failed to deny booking request."
  \<^item> \<open>MustLogInToCancel\<close>: "You must be logged in to cancel a booking."
  \<^item> \<open>BookingCanceled\<close>: "Booking successfully canceled."
  \<^item> \<open>FailedToCancel\<close>: "Failed to cancel booking. Please try again."
  \<^item> \<open>ConflictingBookingCanceled\<close>: "Conflicting booking canceled."
  \<^item> \<open>FailedToCancelConflicting\<close>: "Failed to cancel a conflicting booking."
  \<^item> \<open>MustLogInToDelete\<close>: "You must be logged in to delete a booking."
  \<^item> \<open>BookingDeleted\<close>: "Booking permanently deleted."
  \<^item> \<open>FailedToDelete\<close>: "Failed to delete booking. Please try again."
\<close>

datatype toast =
    MustLogInToList
  | DuplicateListing
  | ListedSuccessfully
  | FailedToList
  | MustLogInToUpdate
  | ListingUpdated
  | FailedToUpdateListing
  | PleaseLogInToBook
  | InvalidTimeFormat
  | RequestSent
  | BookingRequestFailed
  | ApprovalConflict
  | BookingApproved
  | FailedToApprove
  | BookingDenied
  | FailedToDeny
  | MustLogInToCancel
  | BookingCanceled
  | FailedToCancel
  | ConflictingBookingCanceled
  | FailedToCancelConflicting
  | MustLogInToDelete
  | BookingDeleted
  | FailedToDelete

text \<open>
  What an operation leaves behind: the store, the toasts it showed in order, and whether
  its promise was rejected (an error thrown to the caller). The lists of the React state
  mirror the store for one client and are read by no decision of these operations; they,
  the chat messages and the text of the e-mails are not modelled.
\<close>

record outcome =
  db :: store
  toasts :: "toast list"
  thrown :: bool

text \<open>
  \<^verbatim>\<open>addListing\<close> (lines 105-141). The duplicate test compares the time strings with
  \<^verbatim>\<open><\<close> and \<^verbatim>\<open>>\<close>.
\<close>

definition isDuplicateOf :: "listingData \<Rightarrow> listing \<Rightarrow> bool" where
  "isDuplicateOf newListingData existing =
     (str_lt (startTime newListingData) (endTime existing)
      \<and> str_gt (endTime newListingData) (startTime existing))"

definition addListing :: "env \<Rightarrow> user option \<Rightarrow> store \<Rightarrow> listingData \<Rightarrow> outcome" where
  "addListing e currentUser st listingData =
     (case currentUser of
        None \<Rightarrow> \<lparr>db = st, toasts = [MustLogInToList], thrown = False\<rparr>
      | Some u \<Rightarrow>
          (let potentialDuplicates = checkForExistingListing e st listingData;
               isDuplicate = list_ex (isDuplicateOf listingData) potentialDuplicates
           in if isDuplicate then \<lparr>db = st, toasts = [DuplicateListing], thrown = True\<rparr>
              else (case addListingToFirestore e st (user.id u) listingData of
                      None \<Rightarrow> \<lparr>db = st, toasts = [FailedToList], thrown = True\<rparr>
                    | Some (st', newListing) \<Rightarrow>
                        if email_fails e (listing.id newListing)
                        then \<lparr>db = st', toasts = [ListedSuccessfully, FailedToList], thrown = True\<rparr>
                        else \<lparr>db = st', toasts = [ListedSuccessfully], thrown = False\<rparr>)))"

text \<open>
  \<^verbatim>\<open>cancelBookingByOwner\<close> (lines 324-336): every error is caught, nothing is thrown.
\<close>

definition cancelBookingByOwner :: "env \<Rightarrow> store \<Rightarrow> booking \<Rightarrow> outcome" where
  "cancelBookingByOwner e st b =
     (case updateBookingStatusInFirestore e st (booking.id b) canceled_by_owner of
        None \<Rightarrow> \<lparr>db = st, toasts = [FailedToCancelConflicting], thrown = False\<rparr>
      | Some st' \<Rightarrow>
          if email_fails e (booking.id b)
          then \<lparr>db = st', toasts = [ConflictingBookingCanceled, FailedToCancelConflicting], thrown = False\<rparr>
          else \<lparr>db = st', toasts = [ConflictingBookingCanceled], thrown = False\<rparr>)"

text \<open>
  \<^verbatim>\<open>updateListing\<close> (lines 143-168). The loop runs over the bookings fetched before it, for
  the listing and the \<^emph>\<open>new\<close> date \<^verbatim>\<open>listingData.date\<close>; the time strings are compared
  with \<^verbatim>\<open><\<close> and \<^verbatim>\<open>>\<close>.
\<close>

definition isConflictWithListing :: "listingData \<Rightarrow> booking \<Rightarrow> bool" where
  "isConflictWithListing listingData b =
     (listingData.date listingData \<noteq> booking.date b
      \<or> str_lt (booking.startTime b) (listingData.startTime listingData)
      \<or> str_gt (booking.endTime b) (listingData.endTime listingData))"

fun cancelConflicting :: "env \<Rightarrow> listingData \<Rightarrow> booking list \<Rightarrow> store \<Rightarrow> toast list \<Rightarrow> store \<times> toast list" where
  "cancelConflicting e listingData [] st ts = (st, ts)"
| "cancelConflicting e listingData (b # bs) st ts =
     (if isConflictWithListing listingData b \<and> (status b = confirmed \<or> status b = pending)
      then (let r = cancelBookingByOwner e st b
            in cancelConflicting e listingData bs (db r) (ts @ toasts r))
      else cancelConflicting e listingData bs st ts)"

definition updateListing :: "env \<Rightarrow> user option \<Rightarrow> store \<Rightarrow> string \<Rightarrow> listingData \<Rightarrow> outcome" where
  "updateListing e currentUser st lid listingData =
     (case currentUser of
        None \<Rightarrow> \<lparr>db = st, toasts = [MustLogInToUpdate], thrown = False\<rparr>
      | Some u \<Rightarrow>
          (let existingBookings = getExistingBookingsForListing e st lid (listingData.date listingData);
               (st1, ts) = cancelConflicting e listingData existingBookings st []
           in (case updateListingInFirestore e st1 lid listingData of
                 None \<Rightarrow> \<lparr>db = st1, toasts = ts @ [FailedToUpdateListing], thrown = True\<rparr>
               | Some st2 \<Rightarrow> \<lparr>db = st2, toasts = ts @ [ListingUpdated], thrown = False\<rparr>)))"

text \<open>
  \<^verbatim>\<open>requestBooking\<close> (lines 170-228). The log-in test is outside the \<^verbatim>\<open>try\<close>; an invalid
  time is thrown inside it, so the \<^verbatim>\<open>catch\<close> adds its own toast before rethrowing.
\<close>

definition fullLocation :: "listing \<Rightarrow> string" where
  "fullLocation l = address l @ '', '' @ city l @ '', '' @ state l @ '' '' @ zipCode l"

definition requestBooking :: "env \<Rightarrow> user option \<Rightarrow> store \<Rightarrow> listing \<Rightarrow> string \<Rightarrow> string \<Rightarrow> outcome" where
  "requestBooking e currentUser st l startT endT =
     (case currentUser of
        None \<Rightarrow> \<lparr>db = st, toasts = [PleaseLogInToBook], thrown = True\<rparr>
      | Some u \<Rightarrow>
          if email u = [] then \<lparr>db = st, toasts = [PleaseLogInToBook], thrown = True\<rparr>
          else (let newRequestStartMinutes = timeToMinutes startT;
                    newRequestEndMinutes = timeToMinutes endT
                in if isNaN newRequestStartMinutes \<or> isNaN newRequestEndMinutes
                   then \<lparr>db = st, toasts = [InvalidTimeFormat, BookingRequestFailed], thrown = True\<rparr>
                   else (let newBookingData =
                               \<lparr>booking.id = [], listingId = listing.id l, userId = user.id u,
                                bookerName = name u, bookerEmail = email u,
                                booking.ownerId = listing.ownerId l, ownerEmail = contactEmail l,
                                location = fullLocation l, booking.date = listingData.date l,
                                booking.startTime = startT, booking.endTime = endT,
                                booking.rate = listingData.rate l, status = pending\<rparr>
                         in (case addBookingToFirestore e st newBookingData of
                               None \<Rightarrow> \<lparr>db = st, toasts = [BookingRequestFailed], thrown = True\<rparr>
                             | Some (st', newBooking) \<Rightarrow>
                                 if email_fails e (booking.id newBooking)
                                 then \<lparr>db = st', toasts = [BookingRequestFailed], thrown = True\<rparr>
                                 else \<lparr>db = st', toasts = [RequestSent], thrown = False\<rparr>))))"

text \<open>
  \<^verbatim>\<open>approveBooking\<close> (lines 230-281). \<open>isConflictWith\<close> is the function given to
  \<^verbatim>\<open>confirmedBookings.some\<close> (lines 239-247). The status of the argument is not read.
  Every error is caught, nothing is thrown.
\<close>

definition isConflictWith :: "int option \<Rightarrow> int option \<Rightarrow> booking \<Rightarrow> bool" where
  "isConflictWith requestStartMinutes requestEndMinutes confirmedBooking =
     (let existingStartMinutes = timeToMinutes (booking.startTime confirmedBooking);
          existingEndMinutes = timeToMinutes (booking.endTime confirmedBooking)
      in if isNaN existingStartMinutes \<or> isNaN existingEndMinutes then False
         else num_lt requestStartMinutes existingEndMinutes
              \<and> num_gt requestEndMinutes existingStartMinutes)"

definition approveBooking :: "env \<Rightarrow> store \<Rightarrow> booking \<Rightarrow> outcome" where
  "approveBooking e st b =
     (let allBookingsForListing = getExistingBookingsForListing e st (listingId b) (booking.date b);
          confirmedBookings = filter (\<lambda>c. status c = confirmed) allBookingsForListing;
          requestStartMinutes = timeToMinutes (booking.startTime b);
          requestEndMinutes = timeToMinutes (booking.endTime b);
          isConflict = list_ex (isConflictWith requestStartMinutes requestEndMinutes) confirmedBookings
      in if isConflict then \<lparr>db = st, toasts = [ApprovalConflict], thrown = False\<rparr>
         else (case updateBookingStatusInFirestore e st (booking.id b) confirmed of
                 None \<Rightarrow> \<lparr>db = st, toasts = [FailedToApprove], thrown = False\<rparr>
               | Some st' \<Rightarrow>
                   if email_fails e (booking.id b)
                   then \<lparr>db = st', toasts = [FailedToApprove], thrown = False\<rparr>
                   else \<lparr>db = st', toasts = [BookingApproved], thrown = False\<rparr>))"

text \<open>\<^verbatim>\<open>denyBooking\<close> (lines 283-300).\<close>

definition denyBooking :: "env \<Rightarrow> store \<Rightarrow> booking \<Rightarrow> outcome" where
  "denyBooking e st b =
     (case updateBookingStatusInFirestore e st (booking.id b) denied of
        None \<Rightarrow> \<lparr>db = st, toasts = [FailedToDeny], thrown = False\<rparr>
      | Some st' \<Rightarrow>
          if email_fails e (booking.id b)
          then \<lparr>db = st', toasts = [FailedToDeny], thrown = False\<rparr>
          else \<lparr>db = st', toasts = [BookingDenied], thrown = False\<rparr>)"

text \<open>\<^verbatim>\<open>cancelBookingByUser\<close> (lines 302-322): the success toast precedes the e-mail.\<close>

definition cancelBookingByUser :: "env \<Rightarrow> user option \<Rightarrow> store \<Rightarrow> booking \<Rightarrow> outcome" where
  "cancelBookingByUser e currentUser st b =
     (case currentUser of
        None \<Rightarrow> \<lparr>db = st, toasts = [MustLogInToCancel], thrown = False\<rparr>
      | Some u \<Rightarrow>
          if email u = [] then \<lparr>db = st, toasts = [MustLogInToCancel], thrown = False\<rparr>
          else (case updateBookingStatusInFirestore e st (booking.id b) canceled_by_user of
                  None \<Rightarrow> \<lparr>db = st, toasts = [FailedToCancel], thrown = False\<rparr>
                | Some st' \<Rightarrow>
                    if email_fails e (booking.id b)
                    then \<lparr>db = st', toasts = [BookingCanceled, FailedToCancel], thrown = False\<rparr>
                    else \<lparr>db = st', toasts = [BookingCanceled], thrown = False\<rparr>))"

text \<open>\<^verbatim>\<open>deleteBooking\<close> (lines 338-351): no status is read.\<close>

definition deleteBooking :: "env \<Rightarrow> user option \<Rightarrow> store \<Rightarrow> string \<Rightarrow> outcome" where
  "deleteBooking e currentUser st bookingId =
     (case currentUser of
        None \<Rightarrow> \<lparr>db = st, toasts = [MustLogInToDelete], thrown = False\<rparr>
      | Some u \<Rightarrow>
          (case deleteBookingFromFirestore e st bookingId of
             None \<Rightarrow> \<lparr>db = st, toasts = [FailedToDelete], thrown = False\<rparr>
           | Some st' \<Rightarrow> \<lparr>db = st', toasts = [BookingDeleted], thrown = False\<rparr>))"


section \<open>The gates of the presentation layer (src/components/ProfileView.tsx)\<close>

text \<open>\<^verbatim>\<open>BookingCard\<close> (lines 58-59): which buttons a booking card offers.\<close>

definition canCancel :: "booking \<Rightarrow> bool" where
  "canCancel b = (status b = pending \<or> status b = confirmed)"

definition canDelete :: "booking \<Rightarrow> bool" where
  "canDelete b = (status b \<in> set [canceled_by_user, denied, canceled_by_owner])"


section \<open>Notions the properties are stated with\<close>

text \<open>Document ids are unique in the bookings collection.\<close>

definition wf_store :: "store \<Rightarrow> bool" where
  "wf_store st = distinct (map booking.id (bookings st))"

text \<open>The stored booking with a given id, and its status.\<close>

definition lookupBooking :: "store \<Rightarrow> string \<Rightarrow> booking option" where
  "lookupBooking st bid = find (\<lambda>b. booking.id b = bid) (bookings st)"

definition statusOf :: "store \<Rightarrow> string \<Rightarrow> status option" where
  "statusOf st bid = map_option status (lookupBooking st bid)"

text \<open>
  The specification's \<^verbatim>\<open>overlaps(aStart, aEnd, bStart, bEnd)\<close>, in its words: true iff
  \<^verbatim>\<open>aStart < bEnd && bStart < aEnd\<close>; any invalid input yields false.
\<close>

definition spec_overlaps :: "int option \<Rightarrow> int option \<Rightarrow> int option \<Rightarrow> int option \<Rightarrow> bool" where
  "spec_overlaps aStart aEnd bStart bEnd =
     (aStart \<noteq> None \<and> aEnd \<noteq> None \<and> bStart \<noteq> None \<and> bEnd \<noteq> None
      \<and> the aStart < the bEnd \<and> the bStart < the aEnd)"

text \<open>The windows of two bookings overlap, their times read by \<open>timeToMinutes\<close>.\<close>

definition windowsOverlap :: "booking \<Rightarrow> booking \<Rightarrow> bool" where
  "windowsOverlap a c =
     spec_overlaps (timeToMinutes (booking.startTime a)) (timeToMinutes (booking.endTime a))
              (timeToMinutes (booking.startTime c)) (timeToMinutes (booking.endTime c))"

text \<open>
  Some other booking of the store is confirmed on the same listing and date and its
  window overlaps that of \<open>b\<close>.
\<close>

definition otherConfirmedOverlap :: "store \<Rightarrow> booking \<Rightarrow> bool" where
  "otherConfirmedOverlap st b =
     list_ex (\<lambda>c. booking.id c \<noteq> booking.id b \<and> status c = confirmed
                  \<and> listingId c = listingId b \<and> booking.date c = booking.date b
                  \<and> windowsOverlap b c) (bookings st)"

text \<open>Two distinct confirmed bookings on the same listing and date with overlapping windows.\<close>

definition doubleBooked :: "booking \<Rightarrow> booking \<Rightarrow> bool" where
  "doubleBooked a c =
     (booking.id a \<noteq> booking.id c \<and> status a = confirmed \<and> status c = confirmed
      \<and> listingId a = listingId c \<and> booking.date a = booking.date c \<and> windowsOverlap a c)"

definition noDoubleBooking :: "store \<Rightarrow> bool" where
  "noDoubleBooking st =
     list_all (\<lambda>a. list_all (\<lambda>c. \<not> doubleBooked a c) (bookings st)) (bookings st)"

text \<open>
  The window of a booking lies within the window of the listing data, times read by
  \<open>timeToMinutes\<close> (the specification's \<^verbatim>\<open>contains\<close>: \<^verbatim>\<open>innerStart >= outerStart &&
  innerEnd <= outerEnd\<close>, on valid times).
\<close>

definition withinWindow :: "listingData \<Rightarrow> booking \<Rightarrow> bool" where
  "withinWindow d b =
     (case (timeToMinutes (listingData.startTime d), timeToMinutes (listingData.endTime d),
            timeToMinutes (booking.startTime b), timeToMinutes (booking.endTime b)) of
        (Some os, Some oe, Some is, Some ie) \<Rightarrow> os \<le> is \<and> ie \<le> oe
      | _ \<Rightarrow> False)"

text \<open>The windows of two listings overlap, times read by \<open>timeToMinutes\<close>.\<close>

definition listingWindowsOverlap :: "listingData \<Rightarrow> listing \<Rightarrow> bool" where
  "listingWindowsOverlap d l =
     spec_overlaps (timeToMinutes (listingData.startTime d)) (timeToMinutes (listingData.endTime d))
              (timeToMinutes (listingData.startTime l)) (timeToMinutes (listingData.endTime l))"


text \<open>
  The test of the loop of \<^verbatim>\<open>updateListing\<close> for one booking: it conflicts with the new
  listing data, as the code compares them, and is confirmed or pending.
\<close>

definition toCancel :: "listingData \<Rightarrow> booking \<Rightarrow> bool" where
  "toCancel d b = (isConflictWithListing d b \<and> (status b = confirmed \<or> status b = pending))"


subsection \<open>Sequences of operations\<close>

text \<open>
  One call of a core operation, with what the environment does during it and, where the
  operation reads it, the user logged in at the calling client.
\<close>

datatype action =
    RequestBooking env "user option" listing string string
  | ApproveBooking env booking
  | DenyBooking env booking
  | CancelBookingByUser env "user option" booking
  | CancelBookingByOwner env booking
  | DeleteBooking env "user option" string
  | AddListing env "user option" listingData
  | UpdateListing env "user option" string listingData

fun exec :: "action \<Rightarrow> store \<Rightarrow> store" where
  "exec (RequestBooking e u l s t) st = db (requestBooking e u st l s t)"
| "exec (ApproveBooking e b) st = db (approveBooking e st b)"
| "exec (DenyBooking e b) st = db (denyBooking e st b)"
| "exec (CancelBookingByUser e u b) st = db (cancelBookingByUser e u st b)"
| "exec (CancelBookingByOwner e b) st = db (cancelBookingByOwner e st b)"
| "exec (DeleteBooking e u i) st = db (deleteBooking e u st i)"
| "exec (AddListing e u d) st = db (addListing e u st d)"
| "exec (UpdateListing e u i d) st = db (updateListing e u st i d)"

fun run :: "store \<Rightarrow> action list \<Rightarrow> store" where
  "run st [] = st"
| "run st (a # as) = run (exec a st) as"

text \<open>
  The booking handed to an operation is a snapshot of the stored booking with its id: the
  same document, the status possibly stale (or no booking with its id is stored any more).
\<close>

definition snapshotOf :: "store \<Rightarrow> booking \<Rightarrow> bool" where
  "snapshotOf st b =
     list_all (\<lambda>c. booking.id c \<noteq> booking.id b \<or> c\<lparr>status := status b\<rparr> = b) (bookings st)"

text \<open>
  What the store and the callers guarantee for a call: a new document gets an id no stored
  booking has, and an approval is called with a snapshot of a stored booking.
\<close>

fun admissible :: "store \<Rightarrow> action \<Rightarrow> bool" where
  "admissible st (RequestBooking e u l s t) = (newDocId e \<notin> set (map booking.id (bookings st)))"
| "admissible st (ApproveBooking e b) = snapshotOf st b"
| "admissible st _ = True"

fun admissibleRun :: "store \<Rightarrow> action list \<Rightarrow> bool" where
  "admissibleRun st [] = True"
| "admissibleRun st (a # as) = (admissible st a \<and> admissibleRun (exec a st) as)"

text \<open>The query of an approval's conflict scan does not fail.\<close>

fun scanSucceeds :: "action \<Rightarrow> bool" where
  "scanSucceeds (ApproveBooking e b) = (\<not> getDocs_fails e)"
| "scanSucceeds _ = True"

fun isApproval :: "action \<Rightarrow> bool" where
  "isApproval (ApproveBooking e b) = True"
| "isApproval _ = False"


subsection \<open>Sample data\<close>

text \<open>
  The scenario of the specification: listing L on 2024-09-20, window 09:00-17:00, rate 5,
  and bookings on it.
\<close>

definition okEnv :: "string \<Rightarrow> env" where
  "okEnv i = \<lparr>getDocs_fails = False, addDoc_fails = False, newDocId = i,
              updateBooking_fails = (\<lambda>_. False), updateListing_fails = False,
              deleteDoc_fails = False, email_fails = (\<lambda>_. False)\<rparr>"

definition owner1 :: user where
  "owner1 = \<lparr>user.id = ''user-1'', name = ''Alex Doe'', email = ''alex.doe@example.com'',
             avatarUrl = None, phoneNumber = None\<rparr>"

definition dataL :: "string \<Rightarrow> string \<Rightarrow> string \<Rightarrow> listingData" where
  "dataL d s t = \<lparr>address = ''123 Main St'', city = ''Metropolis'', state = ''NY'',
                  zipCode = ''10001'', country = ''USA'', listingData.rate = 5,
                  listingData.date = d, listingData.startTime = s, listingData.endTime = t,
                  contactEmail = ''owner1@example.com'', description = []\<rparr>"

definition listingL :: "string \<Rightarrow> string \<Rightarrow> string \<Rightarrow> listing" where
  "listingL d s t = listingData.extend (dataL d s t) \<lparr>listing.id = ''L'', listing.ownerId = ''user-1''\<rparr>"

definition bookingOn :: "string \<Rightarrow> string \<Rightarrow> string \<Rightarrow> string \<Rightarrow> status \<Rightarrow> booking" where
  "bookingOn i d s t z =
     \<lparr>booking.id = i, listingId = ''L'', userId = ''user-2'', bookerName = ''Bo'',
      bookerEmail = ''bo@example.com'', booking.ownerId = ''user-1'',
      ownerEmail = ''owner1@example.com'', location = ''123 Main St, Metropolis, NY 10001'',
      booking.date = d, booking.startTime = s, booking.endTime = t, booking.rate = 5,
      status = z\<rparr>"

definition storeOf :: "booking list \<Rightarrow> store" where
  "storeOf bs = \<lparr>bookings = bs, listings = [listingL ''2024-09-20'' ''09:00'' ''17:00'']\<rparr>"

definition bookingA :: "status \<Rightarrow> booking" where
  "bookingA z = bookingOn ''A'' ''2024-09-20'' ''10:00'' ''12:00'' z"

definition bookingB :: "status \<Rightarrow> booking" where
  "bookingB z = bookingOn ''B'' ''2024-09-20'' ''11:00'' ''13:00'' z"

definition failingQuery :: env where
  "failingQuery = (okEnv [])\<lparr>getDocs_fails := True\<rparr>"

definition failingWrite :: env where
  "failingWrite = (okEnv [])\<lparr>updateBooking_fails := (\<lambda>_. True)\<rparr>"

definition booker2 :: user where
  "booker2 = \<lparr>user.id = ''user-2'', name = ''Bo'', email = ''bo@example.com'',
              avatarUrl = None, phoneNumber = None\<rparr>"

text \<open>
  Two overlapping requests on listing L, the first approved, the second approved while the
  query of its conflict scan fails.
\<close>

definition doubleBookingRun :: "action list" where
  "doubleBookingRun =
     [RequestBooking (okEnv ''A'') (Some booker2) (listingL ''2024-09-20'' ''09:00'' ''17:00'') ''10:00'' ''12:00'',
      RequestBooking (okEnv ''B'') (Some booker2) (listingL ''2024-09-20'' ''09:00'' ''17:00'') ''11:00'' ''13:00'',
      ApproveBooking (okEnv []) (bookingA pending),
      ApproveBooking failingQuery (bookingB pending)]"

text \<open>
  The end-to-end scenario of the specification: request A (10:00-12:00), approve A, request
  B (11:00-13:00), approve B, deny B, delete B.
\<close>

definition scenarioRun :: "action list" where
  "scenarioRun =
     [RequestBooking (okEnv ''A'') (Some booker2) (listingL ''2024-09-20'' ''09:00'' ''17:00'') ''10:00'' ''12:00'',
      ApproveBooking (okEnv []) (bookingA pending),
      RequestBooking (okEnv ''B'') (Some booker2) (listingL ''2024-09-20'' ''09:00'' ''17:00'') ''11:00'' ''13:00'',
      ApproveBooking (okEnv []) (bookingB pending),
      DenyBooking (okEnv []) (bookingB pending),
      DeleteBooking (okEnv []) (Some booker2) ''B'']"



section \<open>Properties of the time parser and of the overlap check\<close>

lemmas parse_defs =
  timeToMinutes_def Number_def isDigit_def digitsVal_def digitVal_def
  timeToMinutes_ListingForm_def parseInt_def isWhiteSpace_def

lemma digitsVal_two: "digitsVal [a, b] = 10 * digitVal a + digitVal b"
  by (simp add: digitsVal_def)

lemma digitVal_range: "isDigit c \<Longrightarrow> 0 \<le> digitVal c \<and> digitVal c \<le> 9"
  by (auto simp: isDigit_def digitVal_def)

lemma isDigit_not_colon: "isDigit c \<Longrightarrow> c \<noteq> CHR '':''"
  by (auto simp: isDigit_def)

text \<open>
  The parser of the application component and of ConfirmationModal.tsx on the two shapes
  its regular expression admits: the value is \<open>hours * 60 + minutes\<close> when the hour is at most 23 and the minute at
  most 59, and \<^verbatim>\<open>NaN\<close> otherwise.
\<close>

lemma timeToMinutes_H_MM:
  assumes "isDigit h" "isDigit m1" "isDigit m2"
  shows "timeToMinutes [h, CHR '':'', m1, m2] =
           (if 10 * digitVal m1 + digitVal m2 > 59 then None
            else Some (digitVal h * 60 + (10 * digitVal m1 + digitVal m2)))"
  using assms digitVal_range[of h] digitVal_range[of m1] digitVal_range[of m2]
  by (auto simp: timeToMinutes_def Number_def digitsVal_two digitsVal_def isDigit_not_colon)

lemma timeToMinutes_HH_MM:
  assumes "isDigit h1" "isDigit h2" "isDigit m1" "isDigit m2"
  shows "timeToMinutes [h1, h2, CHR '':'', m1, m2] =
           (if 10 * digitVal h1 + digitVal h2 > 23 \<or> 10 * digitVal m1 + digitVal m2 > 59 then None
            else Some ((10 * digitVal h1 + digitVal h2) * 60 + (10 * digitVal m1 + digitVal m2)))"
  using assms digitVal_range[of h1] digitVal_range[of h2] digitVal_range[of m1] digitVal_range[of m2]
  by (auto simp: timeToMinutes_def Number_def digitsVal_two isDigit_not_colon)

text \<open>Every other string is answered \<^verbatim>\<open>NaN\<close>.\<close>

lemma timeToMinutes_bad_format: "\<not> test_time_format s \<Longrightarrow> timeToMinutes s = None"
  by (simp add: timeToMinutes_def)

lemma test_time_format_shape:
  "test_time_format s \<Longrightarrow>
     (\<exists>h m1 m2. s = [h, CHR '':'', m1, m2] \<and> isDigit h \<and> isDigit m1 \<and> isDigit m2)
     \<or> (\<exists>h1 h2 m1 m2. s = [h1, h2, CHR '':'', m1, m2] \<and> isDigit h1 \<and> isDigit h2 \<and> isDigit m1 \<and> isDigit m2)"
  by (induction s rule: test_time_format.induct) auto

lemma timeToMinutes_range:
  assumes "timeToMinutes s = Some m"
  shows "0 \<le> m \<and> m \<le> 1439"
proof -
  have "test_time_format s"
    using assms timeToMinutes_bad_format by fastforce
  from test_time_format_shape[OF this] show ?thesis
  proof (elim disjE exE conjE)
    fix h m1 m2
    assume s: "s = [h, CHR '':'', m1, m2]" and d: "isDigit h" "isDigit m1" "isDigit m2"
    show ?thesis
      using assms digitVal_range[of h] digitVal_range[of m1] digitVal_range[of m2] d
      by (auto simp: s timeToMinutes_H_MM split: if_splits)
  next
    fix h1 h2 m1 m2
    assume s: "s = [h1, h2, CHR '':'', m1, m2]"
      and d: "isDigit h1" "isDigit h2" "isDigit m1" "isDigit m2"
    show ?thesis
      using assms digitVal_range[of h1] digitVal_range[of h2] digitVal_range[of m1]
        digitVal_range[of m2] d
      by (auto simp: s timeToMinutes_HH_MM split: if_splits)
  qed
qed

text \<open>Times used in the examples.\<close>

lemma tm_0900: "timeToMinutes ''09:00'' = Some 540" by (simp add: parse_defs)
lemma tm_1000: "timeToMinutes ''10:00'' = Some 600" by (simp add: parse_defs)
lemma tm_1100: "timeToMinutes ''11:00'' = Some 660" by (simp add: parse_defs)
lemma tm_1200: "timeToMinutes ''12:00'' = Some 720" by (simp add: parse_defs)
lemma tm_1300: "timeToMinutes ''13:00'' = Some 780" by (simp add: parse_defs)
lemma tm_1500: "timeToMinutes ''15:00'' = Some 900" by (simp add: parse_defs)
lemma tm_1700: "timeToMinutes ''17:00'' = Some 1020" by (simp add: parse_defs)
lemma tm_930: "timeToMinutes ''9:30'' = Some 570" by (simp add: parse_defs)
lemma tm_945: "timeToMinutes ''9:45'' = Some 585" by (simp add: parse_defs)
lemma tm_900: "timeToMinutes ''9:00'' = Some 540" by (simp add: parse_defs)
lemma tm_100: "timeToMinutes ''1:00'' = Some 60" by (simp add: parse_defs)
lemma tm_300: "timeToMinutes ''3:00'' = Some 180" by (simp add: parse_defs)
lemma tm_2000: "timeToMinutes ''20:00'' = Some 1200" by (simp add: parse_defs)
lemma tm_2200: "timeToMinutes ''22:00'' = Some 1320" by (simp add: parse_defs)
lemma tm_2500: "timeToMinutes ''25:00'' = None" by (simp add: parse_defs)
lemma tm_noon_word: "timeToMinutes ''noon'' = None" by (simp add: parse_defs)

lemmas tm_simps = tm_0900 tm_1000 tm_1100 tm_1200 tm_1300 tm_1500 tm_1700 tm_930 tm_945
  tm_900 tm_100 tm_300 tm_2000 tm_2200 tm_2500 tm_noon_word


text \<open>
  C7 (the parser of the listing form has no range check). On \<open>''25:00''\<close>, whose hour is
  outside 0..23, the parser of the listing form returns the minute count 1500 and not its
  invalid marker \<open>- 1\<close>, where the parser of the application component and of
  ConfirmationModal.tsx returns \<^verbatim>\<open>NaN\<close>; likewise it returns 615 on \<open>''9:75''\<close> and 725 on
  \<open>''12:5x''\<close>.
\<close>

theorem timeToMinutes_ListingForm_no_range_check:
  "timeToMinutes_ListingForm ''25:00'' = 1500
   \<and> timeToMinutes ''25:00'' = None
   \<and> timeToMinutes_ListingForm ''9:75'' = 615
   \<and> timeToMinutes_ListingForm ''12:5x'' = 725"
  by (simp add: parse_defs)


lemma isConflictWith_overlaps:
  "isConflictWith a b c =
     spec_overlaps a b (timeToMinutes (booking.startTime c)) (timeToMinutes (booking.endTime c))"
proof (cases a)
  case None
  then show ?thesis
    by (simp add: isConflictWith_def spec_overlaps_def isNaN_def num_lt_def num_gt_def Let_def)
next
  case (Some x)
  note a = this
  show ?thesis
  proof (cases b)
    case None
    then show ?thesis
      by (simp add: isConflictWith_def spec_overlaps_def isNaN_def num_lt_def num_gt_def Let_def a)
  next
    case (Some y)
    then show ?thesis
      by (cases "timeToMinutes (booking.startTime c)"; cases "timeToMinutes (booking.endTime c)")
         (simp_all add: isConflictWith_def spec_overlaps_def isNaN_def num_lt_def num_gt_def Let_def a)
  qed
qed


text \<open>
  C8 (the overlap check of \<^verbatim>\<open>approveBooking\<close>). With all four times valid, the check is
  true iff \<^verbatim>\<open>aStart < bEnd && bStart < aEnd\<close>; intervals that touch (\<^verbatim>\<open>aEnd == bStart\<close>) do
  not overlap, as 09:00-12:00 and 12:00-15:00; an invalid time on either side gives false.
\<close>

theorem approval_overlap_check:
  fixes c :: booking
  shows "(\<forall>aStart aEnd bStart bEnd.
            timeToMinutes (booking.startTime c) = Some bStart \<longrightarrow>
            timeToMinutes (booking.endTime c) = Some bEnd \<longrightarrow>
            isConflictWith (Some aStart) (Some aEnd) c = (aStart < bEnd \<and> bStart < aEnd))
         \<and> (\<forall>aStart aEnd.
            timeToMinutes (booking.startTime c) = Some aEnd \<longrightarrow>
            \<not> isConflictWith (Some aStart) (Some aEnd) c)
         \<and> \<not> isConflictWith (timeToMinutes ''09:00'') (timeToMinutes ''12:00'')
               (c\<lparr>booking.startTime := ''12:00'', booking.endTime := ''15:00''\<rparr>)
         \<and> (\<forall>a b. (a = None \<or> b = None \<or> timeToMinutes (booking.startTime c) = None
                    \<or> timeToMinutes (booking.endTime c) = None) \<longrightarrow>
                   \<not> isConflictWith a b c)"
proof (intro conjI allI impI)
  fix aStart aEnd bStart bEnd
  assume "timeToMinutes (booking.startTime c) = Some bStart"
    and "timeToMinutes (booking.endTime c) = Some bEnd"
  then show "isConflictWith (Some aStart) (Some aEnd) c = (aStart < bEnd \<and> bStart < aEnd)"
    by (simp add: isConflictWith_overlaps spec_overlaps_def)
next
  fix aStart aEnd
  assume "timeToMinutes (booking.startTime c) = Some aEnd"
  then show "\<not> isConflictWith (Some aStart) (Some aEnd) c"
    by (simp add: isConflictWith_overlaps spec_overlaps_def)
next
  show "\<not> isConflictWith (timeToMinutes ''09:00'') (timeToMinutes ''12:00'')
          (c\<lparr>booking.startTime := ''12:00'', booking.endTime := ''15:00''\<rparr>)"
    by (simp add: isConflictWith_overlaps spec_overlaps_def tm_simps)
next
  fix a b :: "int option"
  assume "a = None \<or> b = None \<or> timeToMinutes (booking.startTime c) = None
          \<or> timeToMinutes (booking.endTime c) = None"
  then show "\<not> isConflictWith a b c"
    by (auto simp: isConflictWith_overlaps spec_overlaps_def)
qed

theorem approval_overlap_check_witness:
  "isConflictWith (Some 540) (Some 720) (bookingOn ''A'' ''2024-09-20'' ''11:00'' ''15:00'' confirmed)
   \<and> \<not> isConflictWith (Some 540) (Some 720) (bookingOn ''A'' ''2024-09-20'' ''12:00'' ''15:00'' confirmed)
   \<and> \<not> isConflictWith None (Some 720) (bookingOn ''A'' ''2024-09-20'' ''11:00'' ''15:00'' confirmed)"
proof -
  let ?c1 = "bookingOn ''A'' ''2024-09-20'' ''11:00'' ''15:00'' confirmed"
  let ?c2 = "bookingOn ''A'' ''2024-09-20'' ''12:00'' ''15:00'' confirmed"
  have s1: "timeToMinutes (booking.startTime ?c1) = Some 660"
    and e1: "timeToMinutes (booking.endTime ?c1) = Some 900"
    and s2: "timeToMinutes (booking.startTime ?c2) = Some 720"
    by (simp_all add: bookingOn_def tm_simps)
  have "isConflictWith (Some 540) (Some 720) ?c1 = ((540::int) < 900 \<and> (660::int) < 720)"
    using approval_overlap_check[of ?c1, THEN conjunct1, rule_format, OF s1 e1, of 540 720] .
  moreover have "\<not> isConflictWith (Some 540) (Some 720) ?c2"
    using approval_overlap_check[of ?c2, THEN conjunct2, THEN conjunct1, rule_format, OF s2, of 540] .
  moreover have "\<not> isConflictWith None (Some 720) ?c1"
    using approval_overlap_check[of ?c1, THEN conjunct2, THEN conjunct2, THEN conjunct2,
        rule_format, of None "Some 720"]
    by simp
  ultimately show ?thesis by simp
qed



section \<open>Properties of the store updates\<close>

lemma find_id_map_status:
  "find (\<lambda>c. booking.id c = i) (map (\<lambda>c. if booking.id c = j then c\<lparr>status := s\<rparr> else c) bs) =
     map_option (\<lambda>c. if booking.id c = j then c\<lparr>status := s\<rparr> else c) (find (\<lambda>c. booking.id c = i) bs)"
  by (induction bs) auto

lemma find_id_member:
  "distinct (map booking.id bs) \<Longrightarrow> b \<in> set bs \<Longrightarrow> find (\<lambda>c. booking.id c = booking.id b) bs = Some b"
  by (induction bs) force+

lemma find_id_absent:
  "i \<notin> set (map booking.id bs) \<Longrightarrow> find (\<lambda>c. booking.id c = i) bs = None"
  by (induction bs) auto

lemma find_id_present:
  "i \<in> set (map booking.id bs) \<Longrightarrow> \<exists>b. find (\<lambda>c. booking.id c = i) bs = Some b \<and> booking.id b = i"
  by (induction bs) auto

lemma find_id_Some:
  "find (\<lambda>c. booking.id c = i) bs = Some b \<Longrightarrow> booking.id b = i \<and> b \<in> set bs"
  by (induction bs) (auto split: if_splits)

lemma lookupBooking_member:
  "wf_store st \<Longrightarrow> b \<in> set (bookings st) \<Longrightarrow> lookupBooking st (booking.id b) = Some b"
  by (simp add: wf_store_def lookupBooking_def find_id_member)

lemma statusOf_member:
  "wf_store st \<Longrightarrow> b \<in> set (bookings st) \<Longrightarrow> statusOf st (booking.id b) = Some (status b)"
  by (simp add: statusOf_def lookupBooking_member)

lemma same_id_same_booking:
  "wf_store st \<Longrightarrow> b \<in> set (bookings st) \<Longrightarrow> c \<in> set (bookings st) \<Longrightarrow>
   booking.id c = booking.id b \<Longrightarrow> c = b"
  unfolding wf_store_def by (metis distinct_map inj_onD)

lemma updateStatus_None_iff:
  "updateBookingStatusInFirestore e st bid s = None \<longleftrightarrow>
     updateBooking_fails e bid \<or> bid \<notin> set (map booking.id (bookings st))"
  by (simp add: updateBookingStatusInFirestore_def)

lemma updateStatus_Some:
  assumes "updateBookingStatusInFirestore e st bid s = Some st'"
  shows "bookings st' = map (\<lambda>b. if booking.id b = bid then b\<lparr>status := s\<rparr> else b) (bookings st)"
    and "listings st' = listings st"
    and "map booking.id (bookings st') = map booking.id (bookings st)"
  using assms by (auto simp: updateBookingStatusInFirestore_def split: if_splits)

lemma updateStatus_wf:
  "updateBookingStatusInFirestore e st bid s = Some st' \<Longrightarrow> wf_store st \<Longrightarrow> wf_store st'"
  by (simp add: wf_store_def updateStatus_Some(3))

lemma updateStatus_statusOf_same:
  assumes "updateBookingStatusInFirestore e st bid s = Some st'"
  shows "statusOf st' bid = Some s"
proof -
  have "bid \<in> set (map booking.id (bookings st))"
    using assms by (simp add: updateBookingStatusInFirestore_def split: if_splits)
  then obtain b where "find (\<lambda>c. booking.id c = bid) (bookings st) = Some b" "booking.id b = bid"
    using find_id_present by blast
  then show ?thesis
    by (simp add: statusOf_def lookupBooking_def updateStatus_Some(1)[OF assms] find_id_map_status)
qed

lemma updateStatus_statusOf_other:
  assumes "updateBookingStatusInFirestore e st bid s = Some st'" "i \<noteq> bid"
  shows "statusOf st' i = statusOf st i"
proof (cases "find (\<lambda>c. booking.id c = i) (bookings st)")
  case None
  then show ?thesis
    by (simp add: statusOf_def lookupBooking_def updateStatus_Some(1)[OF assms(1)] find_id_map_status)
next
  case (Some c)
  then have "booking.id c = i"
    using find_id_Some by blast
  with Some assms(2) show ?thesis
    by (simp add: statusOf_def lookupBooking_def updateStatus_Some(1)[OF assms(1)] find_id_map_status)
qed


section \<open>Properties of approveBooking\<close>

text \<open>
  What the conflict scan finds when its query succeeds: a confirmed booking of the store on
  the listing and date of \<open>b\<close> whose window overlaps that of \<open>b\<close>.
\<close>

lemma spec_overlaps_sym: "spec_overlaps a b c d = spec_overlaps c d a b"
  by (auto simp: spec_overlaps_def)

lemma windowsOverlap_sym: "windowsOverlap a c = windowsOverlap c a"
  unfolding windowsOverlap_def by (rule spec_overlaps_sym)

lemma scan_finds:
  "list_ex (isConflictWith (timeToMinutes (booking.startTime b)) (timeToMinutes (booking.endTime b)))
     (filter (\<lambda>c. status c = confirmed)
        (getExistingBookingsForListing e st (listingId b) (booking.date b))) =
   (\<not> getDocs_fails e \<and>
    (\<exists>c \<in> set (bookings st). status c = confirmed \<and> listingId c = listingId b
                   \<and> booking.date c = booking.date b \<and> windowsOverlap b c))"
  by (auto simp: list_ex_iff getExistingBookingsForListing_def isConflictWith_overlaps
      windowsOverlap_def)

lemma otherConfirmedOverlap_iff:
  "otherConfirmedOverlap st b =
     (\<exists>c \<in> set (bookings st). booking.id c \<noteq> booking.id b \<and> status c = confirmed
         \<and> listingId c = listingId b \<and> booking.date c = booking.date b \<and> windowsOverlap b c)"
  by (simp add: otherConfirmedOverlap_def list_ex_iff)

text \<open>A stored booking that is not confirmed is not among the confirmed bookings scanned.\<close>

lemma scan_other:
  assumes "wf_store st" "b \<in> set (bookings st)" "status b \<noteq> confirmed"
  shows "(\<exists>c \<in> set (bookings st). status c = confirmed \<and> listingId c = listingId b
            \<and> booking.date c = booking.date b \<and> windowsOverlap b c) = otherConfirmedOverlap st b"
  unfolding otherConfirmedOverlap_iff
  using same_id_same_booking[OF assms(1,2)] assms(3) by blast

lemma approve_refused:
  assumes "\<not> getDocs_fails e"
    and "\<exists>c \<in> set (bookings st). status c = confirmed \<and> listingId c = listingId b
            \<and> booking.date c = booking.date b \<and> windowsOverlap b c"
  shows "approveBooking e st b = \<lparr>db = st, toasts = [ApprovalConflict], thrown = False\<rparr>"
  using assms unfolding approveBooking_def Let_def scan_finds by simp

lemma approve_proceeds:
  assumes "getDocs_fails e \<or> \<not> (\<exists>c \<in> set (bookings st). status c = confirmed \<and> listingId c = listingId b
            \<and> booking.date c = booking.date b \<and> windowsOverlap b c)"
  shows "approveBooking e st b =
           (case updateBookingStatusInFirestore e st (booking.id b) confirmed of
              None \<Rightarrow> \<lparr>db = st, toasts = [FailedToApprove], thrown = False\<rparr>
            | Some st' \<Rightarrow>
                if email_fails e (booking.id b)
                then \<lparr>db = st', toasts = [FailedToApprove], thrown = False\<rparr>
                else \<lparr>db = st', toasts = [BookingApproved], thrown = False\<rparr>)"
  using assms unfolding approveBooking_def Let_def scan_finds by auto

lemma approveBooking_toasts:
  "toasts (approveBooking e st b) \<in> {[ApprovalConflict], [BookingApproved], [FailedToApprove]}"
  by (simp add: approveBooking_def Let_def split: option.splits)

lemma approveBooking_not_thrown: "\<not> thrown (approveBooking e st b)"
  by (simp add: approveBooking_def Let_def split: option.splits)

lemma approveBooking_proceeds_status:
  assumes "getDocs_fails e \<or> \<not> (\<exists>c \<in> set (bookings st). status c = confirmed \<and> listingId c = listingId b
            \<and> booking.date c = booking.date b \<and> windowsOverlap b c)"
    and "b \<in> set (bookings st)" "\<not> updateBooking_fails e (booking.id b)"
  shows "statusOf (db (approveBooking e st b)) (booking.id b) = Some confirmed"
    and "toasts (approveBooking e st b) \<noteq> [ApprovalConflict]"
proof -
  obtain st' where u: "updateBookingStatusInFirestore e st (booking.id b) confirmed = Some st'"
    using assms(2,3) updateStatus_None_iff[of e st "booking.id b" confirmed] by fastforce
  show "statusOf (db (approveBooking e st b)) (booking.id b) = Some confirmed"
    using updateStatus_statusOf_same[OF u]
    by (simp add: approve_proceeds[OF assms(1)] u)
  show "toasts (approveBooking e st b) \<noteq> [ApprovalConflict]"
    by (simp add: approve_proceeds[OF assms(1)] u)
qed

lemma approveBooking_status_arg:
  "approveBooking e st (b\<lparr>status := z\<rparr>) = approveBooking e st b"
  unfolding approveBooking_def Let_def by (simp split: option.splits)



lemma approveBooking_db_cases:
  "db (approveBooking e st b) = st
   \<or> updateBookingStatusInFirestore e st (booking.id b) confirmed = Some (db (approveBooking e st b))"
  unfolding approveBooking_def Let_def by (simp split: option.splits)

lemmas sample_defs =
  okEnv_def owner1_def dataL_def listingL_def bookingOn_def storeOf_def bookingA_def bookingB_def
  failingQuery_def failingWrite_def

lemmas store_defs =
  getExistingBookingsForListing_def updateBookingStatusInFirestore_def
  deleteBookingFromFirestore_def addBookingToFirestore_def checkForExistingListing_def
  addListingToFirestore_def updateListingInFirestore_def overwrite_def

lemmas query_defs =
  wf_store_def statusOf_def lookupBooking_def otherConfirmedOverlap_def windowsOverlap_def
  spec_overlaps_def isConflictWith_def isNaN_def num_lt_def num_gt_def


text \<open>
  C10 (a failing query during the conflict scan). When the query of the scan fails,
  \<^verbatim>\<open>getExistingBookingsForListing\<close> answers the empty list and \<^verbatim>\<open>approveBooking\<close> goes on to the
  status update as if no booking were confirmed: the outcome is that of the update alone,
  it is never the conflict refusal, nothing is thrown, and when the update succeeds the
  stored booking becomes confirmed.
\<close>

theorem approveBooking_scan_failure:
  assumes "getDocs_fails e"
  shows "getExistingBookingsForListing e st (listingId b) (booking.date b) = []
         \<and> approveBooking e st b =
             (case updateBookingStatusInFirestore e st (booking.id b) confirmed of
                None \<Rightarrow> \<lparr>db = st, toasts = [FailedToApprove], thrown = False\<rparr>
              | Some st' \<Rightarrow>
                  if email_fails e (booking.id b)
                  then \<lparr>db = st', toasts = [FailedToApprove], thrown = False\<rparr>
                  else \<lparr>db = st', toasts = [BookingApproved], thrown = False\<rparr>)
         \<and> toasts (approveBooking e st b) \<noteq> [ApprovalConflict]
         \<and> \<not> thrown (approveBooking e st b)
         \<and> (b \<in> set (bookings st) \<and> \<not> updateBooking_fails e (booking.id b) \<longrightarrow>
              statusOf (db (approveBooking e st b)) (booking.id b) = Some confirmed)"
proof (intro conjI impI)
  show "getExistingBookingsForListing e st (listingId b) (booking.date b) = []"
    using assms by (simp add: getExistingBookingsForListing_def)
  show "approveBooking e st b =
             (case updateBookingStatusInFirestore e st (booking.id b) confirmed of
                None \<Rightarrow> \<lparr>db = st, toasts = [FailedToApprove], thrown = False\<rparr>
              | Some st' \<Rightarrow>
                  if email_fails e (booking.id b)
                  then \<lparr>db = st', toasts = [FailedToApprove], thrown = False\<rparr>
                  else \<lparr>db = st', toasts = [BookingApproved], thrown = False\<rparr>)"
    using assms by (intro approve_proceeds) simp
  then show "toasts (approveBooking e st b) \<noteq> [ApprovalConflict]"
    by (simp split: option.splits)
  show "\<not> thrown (approveBooking e st b)"
    by (rule approveBooking_not_thrown)
next
  assume "b \<in> set (bookings st) \<and> \<not> updateBooking_fails e (booking.id b)"
  then show "statusOf (db (approveBooking e st b)) (booking.id b) = Some confirmed"
    using assms by (intro approveBooking_proceeds_status(1)) simp_all
qed

theorem approveBooking_scan_failure_witness:
  "getDocs_fails failingQuery
   \<and> otherConfirmedOverlap (storeOf [bookingA confirmed, bookingB pending]) (bookingB pending)
   \<and> toasts (approveBooking failingQuery (storeOf [bookingA confirmed, bookingB pending]) (bookingB pending))
       = [BookingApproved]
   \<and> \<not> thrown (approveBooking failingQuery (storeOf [bookingA confirmed, bookingB pending]) (bookingB pending))
   \<and> statusOf (db (approveBooking failingQuery (storeOf [bookingA confirmed, bookingB pending]) (bookingB pending))) ''B''
       = Some confirmed"
proof -
  let ?st = "storeOf [bookingA confirmed, bookingB pending]"
  let ?b = "bookingB pending"
  have f: "getDocs_fails failingQuery"
    by (simp add: sample_defs)
  have m: "?b \<in> set (bookings ?st) \<and> \<not> updateBooking_fails failingQuery (booking.id ?b)"
    by (simp add: sample_defs)
  have i: "booking.id ?b = ''B''"
    by (simp add: sample_defs)
  have o: "otherConfirmedOverlap ?st ?b"
    by (simp add: sample_defs query_defs tm_simps)
  note t = approveBooking_scan_failure[OF f, of ?st ?b]
  have "statusOf (db (approveBooking failingQuery ?st ?b)) ''B'' = Some confirmed"
    using t[THEN conjunct2, THEN conjunct2, THEN conjunct2, THEN conjunct2] m i by simp
  moreover have "\<not> thrown (approveBooking failingQuery ?st ?b)"
    using t[THEN conjunct2, THEN conjunct2, THEN conjunct2, THEN conjunct1] .
  moreover have "toasts (approveBooking failingQuery ?st ?b) = [BookingApproved]"
    unfolding t[THEN conjunct2, THEN conjunct1] by (simp add: sample_defs store_defs)
  ultimately show ?thesis using f o by simp
qed



text \<open>
  C1, as amended (the conflict gate of \<^verbatim>\<open>approveBooking\<close>). For a stored pending booking
  \<open>b\<close> and an approval whose scan query succeeds: the approval is refused with the conflict
  toast iff some other confirmed booking on the same listing and date overlaps the window
  of \<open>b\<close>, and then the store is unchanged and \<open>b\<close> still pending; otherwise, when the status
  update succeeds, \<open>b\<close> becomes confirmed. After one of two mutually overlapping pending
  requests has been approved, the approval of the second (its scan query succeeding) is
  refused with the conflict toast and it stays pending.
\<close>

theorem approveBooking_conflict_gate:
  assumes "wf_store st" and "b \<in> set (bookings st)" and "status b = pending"
    and "\<not> getDocs_fails e"
  shows "(toasts (approveBooking e st b) = [ApprovalConflict] \<longleftrightarrow> otherConfirmedOverlap st b)
         \<and> (otherConfirmedOverlap st b \<longrightarrow>
               db (approveBooking e st b) = st
               \<and> statusOf (db (approveBooking e st b)) (booking.id b) = Some pending)
         \<and> (\<not> otherConfirmedOverlap st b \<and> \<not> updateBooking_fails e (booking.id b) \<longrightarrow>
               statusOf (db (approveBooking e st b)) (booking.id b) = Some confirmed)
         \<and> (\<forall>e' b'. b' \<in> set (bookings st) \<and> status b' = pending
                 \<and> booking.id b' \<noteq> booking.id b
                 \<and> listingId b' = listingId b \<and> booking.date b' = booking.date b
                 \<and> windowsOverlap b' b \<and> \<not> getDocs_fails e'
                 \<and> statusOf (db (approveBooking e st b)) (booking.id b) = Some confirmed \<longrightarrow>
               toasts (approveBooking e' (db (approveBooking e st b)) b') = [ApprovalConflict]
               \<and> statusOf (db (approveBooking e' (db (approveBooking e st b)) b')) (booking.id b')
                   = Some pending)"
proof -
  let ?found = "\<exists>c \<in> set (bookings st). status c = confirmed \<and> listingId c = listingId b
                  \<and> booking.date c = booking.date b \<and> windowsOverlap b c"
  have found: "?found = otherConfirmedOverlap st b"
    using assms(1,2,3) by (intro scan_other) simp_all
  have cur: "statusOf st (booking.id b) = Some pending"
    using statusOf_member[OF assms(1,2)] assms(3) by simp
  have refused: "otherConfirmedOverlap st b \<Longrightarrow>
      approveBooking e st b = \<lparr>db = st, toasts = [ApprovalConflict], thrown = False\<rparr>"
    using approve_refused[OF assms(4), of st b] found by simp
  have proceeds: "\<not> otherConfirmedOverlap st b \<Longrightarrow> toasts (approveBooking e st b) \<noteq> [ApprovalConflict]"
    using approve_proceeds[of e st b] found by (auto split: option.splits)
  have p1: "toasts (approveBooking e st b) = [ApprovalConflict] \<longleftrightarrow> otherConfirmedOverlap st b"
    using refused proceeds by auto
  have p2: "otherConfirmedOverlap st b \<longrightarrow>
               db (approveBooking e st b) = st
               \<and> statusOf (db (approveBooking e st b)) (booking.id b) = Some pending"
    using refused cur by simp
  have p3: "\<not> otherConfirmedOverlap st b \<and> \<not> updateBooking_fails e (booking.id b) \<longrightarrow>
               statusOf (db (approveBooking e st b)) (booking.id b) = Some confirmed"
    using approveBooking_proceeds_status(1)[of e st b] found assms(2) by blast
  have p4: "toasts (approveBooking e' (db (approveBooking e st b)) b') = [ApprovalConflict]
            \<and> statusOf (db (approveBooking e' (db (approveBooking e st b)) b')) (booking.id b')
                = Some pending"
    if h: "b' \<in> set (bookings st)" "status b' = pending" "booking.id b' \<noteq> booking.id b"
      "listingId b' = listingId b" "booking.date b' = booking.date b" "windowsOverlap b' b"
      "\<not> getDocs_fails e'"
      "statusOf (db (approveBooking e st b)) (booking.id b) = Some confirmed"
    for e' b'
  proof -
    let ?st1 = "db (approveBooking e st b)"
    have "?st1 \<noteq> st"
      using cur h(8) by auto
    then have u: "updateBookingStatusInFirestore e st (booking.id b) confirmed = Some ?st1"
      using approveBooking_db_cases[of e st b] by simp
    have "b\<lparr>status := confirmed\<rparr> \<in> set (bookings ?st1)"
      unfolding updateStatus_Some(1)[OF u] using assms(2) by force
    moreover have "windowsOverlap b' (b\<lparr>status := confirmed\<rparr>)"
      using h(6) by (simp add: windowsOverlap_def)
    ultimately have "\<exists>c \<in> set (bookings ?st1). status c = confirmed \<and> listingId c = listingId b'
        \<and> booking.date c = booking.date b' \<and> windowsOverlap b' c"
      using h(4,5) by (intro bexI[of _ "b\<lparr>status := confirmed\<rparr>"]) simp_all
    from approve_refused[OF h(7) this]
    have r: "approveBooking e' ?st1 b' = \<lparr>db = ?st1, toasts = [ApprovalConflict], thrown = False\<rparr>" .
    have "statusOf ?st1 (booking.id b') = statusOf st (booking.id b')"
      using updateStatus_statusOf_other[OF u h(3)] .
    also have "\<dots> = Some pending"
      using statusOf_member[OF assms(1) h(1)] h(2) by simp
    finally show ?thesis
      by (simp add: r)
  qed
  show ?thesis
    using p1 p2 p3 p4 by blast
qed

theorem approveBooking_conflict_gate_witness:
  "toasts (approveBooking (okEnv []) (storeOf [bookingA pending, bookingB pending]) (bookingA pending))
     \<noteq> [ApprovalConflict]
   \<and> statusOf (db (approveBooking (okEnv []) (storeOf [bookingA pending, bookingB pending]) (bookingA pending))) ''A''
       = Some confirmed
   \<and> toasts (approveBooking (okEnv [])
        (db (approveBooking (okEnv []) (storeOf [bookingA pending, bookingB pending]) (bookingA pending)))
        (bookingB pending)) = [ApprovalConflict]
   \<and> statusOf (db (approveBooking (okEnv [])
        (db (approveBooking (okEnv []) (storeOf [bookingA pending, bookingB pending]) (bookingA pending)))
        (bookingB pending))) ''B'' = Some pending"
proof -
  let ?st = "storeOf [bookingA pending, bookingB pending]"
  let ?a = "bookingA pending"
  let ?b = "bookingB pending"
  let ?e = "okEnv []"
  have wf: "wf_store ?st" and ma: "?a \<in> set (bookings ?st)" and pa: "status ?a = pending"
    and ok: "\<not> getDocs_fails ?e"
    by (simp_all add: sample_defs wf_store_def)
  have no: "\<not> otherConfirmedOverlap ?st ?a" and w: "\<not> updateBooking_fails ?e (booking.id ?a)"
    by (simp_all add: sample_defs query_defs)
  have ia: "booking.id ?a = ''A''" and ib: "booking.id ?b = ''B''"
    by (simp_all add: sample_defs)
  note g = approveBooking_conflict_gate[OF wf ma pa ok]
  have c1: "toasts (approveBooking ?e ?st ?a) \<noteq> [ApprovalConflict]"
    using g[THEN conjunct1] no by simp
  have c2: "statusOf (db (approveBooking ?e ?st ?a)) ''A'' = Some confirmed"
    using g[THEN conjunct2, THEN conjunct2, THEN conjunct1] no w ia by simp
  have h: "?b \<in> set (bookings ?st) \<and> status ?b = pending \<and> booking.id ?b \<noteq> booking.id ?a
      \<and> listingId ?b = listingId ?a \<and> booking.date ?b = booking.date ?a
      \<and> windowsOverlap ?b ?a \<and> \<not> getDocs_fails ?e"
    by (simp add: sample_defs query_defs tm_simps)
  have c3: "toasts (approveBooking ?e (db (approveBooking ?e ?st ?a)) ?b) = [ApprovalConflict]
      \<and> statusOf (db (approveBooking ?e (db (approveBooking ?e ?st ?a)) ?b)) (booking.id ?b) = Some pending"
    using g[THEN conjunct2, THEN conjunct2, THEN conjunct2, rule_format, of ?b ?e] h c2 ia
    by simp
  show ?thesis
    using c1 c2 c3 ib by simp
qed

text \<open>
  C1 as stated fails when the store fails. With the query of the scan failing, the approval
  of B (11:00-13:00) goes through although the confirmed A (10:00-12:00) overlaps it;
  with the status update failing, B is not refused for a conflict and yet stays pending.
\<close>

theorem approveBooking_conflict_gate_counterexample:
  "otherConfirmedOverlap (storeOf [bookingA confirmed, bookingB pending]) (bookingB pending)
   \<and> toasts (approveBooking failingQuery (storeOf [bookingA confirmed, bookingB pending]) (bookingB pending))
       \<noteq> [ApprovalConflict]
   \<and> statusOf (db (approveBooking failingQuery (storeOf [bookingA confirmed, bookingB pending]) (bookingB pending))) ''B''
       = Some confirmed
   \<and> \<not> otherConfirmedOverlap (storeOf [bookingB pending]) (bookingB pending)
   \<and> toasts (approveBooking failingWrite (storeOf [bookingB pending]) (bookingB pending))
       = [FailedToApprove]
   \<and> statusOf (db (approveBooking failingWrite (storeOf [bookingB pending]) (bookingB pending))) ''B''
       = Some pending"
  by (simp add: approveBooking_def sample_defs store_defs query_defs tm_simps)



text \<open>
  C6, as amended (\<^verbatim>\<open>approveBooking\<close> has no status guard). \<^verbatim>\<open>approveBooking\<close> never reads the
  status of the booking and has no illegal-transition outcome: its toast is the conflict
  refusal, the approval or the generic failure. For a stored booking that is denied or
  canceled, with the scan query and the status update succeeding: when no other confirmed
  booking overlaps it the booking becomes confirmed, and when one does the approval is
  refused as a conflict with the store unchanged. A stored confirmed booking stays
  confirmed. Only the presentation layer restricts approval to pending bookings: the
  requests it offers for approval are the pending bookings fetched for the owner.
\<close>

theorem approveBooking_no_status_guard:
  assumes "wf_store st" and "b \<in> set (bookings st)"
    and "\<not> getDocs_fails e" and "\<not> updateBooking_fails e (booking.id b)"
  shows "approveBooking e st (b\<lparr>status := z\<rparr>) = approveBooking e st b
         \<and> toasts (approveBooking e st b) \<in> {[ApprovalConflict], [BookingApproved], [FailedToApprove]}
         \<and> ((status b = denied \<or> status b = canceled_by_user \<or> status b = canceled_by_owner)
              \<and> \<not> otherConfirmedOverlap st b \<longrightarrow>
              statusOf (db (approveBooking e st b)) (booking.id b) = Some confirmed
              \<and> toasts (approveBooking e st b) \<noteq> [ApprovalConflict])
         \<and> ((status b = denied \<or> status b = canceled_by_user \<or> status b = canceled_by_owner)
              \<and> otherConfirmedOverlap st b \<longrightarrow>
              approveBooking e st b = \<lparr>db = st, toasts = [ApprovalConflict], thrown = False\<rparr>)
         \<and> (status b = confirmed \<longrightarrow>
              statusOf (db (approveBooking e st b)) (booking.id b) = Some confirmed)
         \<and> (\<forall>e' oid. \<forall>r \<in> set (getBookingRequestsForOwner e' st oid). status r = pending)"
proof -
  let ?found = "\<exists>c \<in> set (bookings st). status c = confirmed \<and> listingId c = listingId b
                  \<and> booking.date c = booking.date b \<and> windowsOverlap b c"
  have other: "status b \<noteq> confirmed \<Longrightarrow> ?found = otherConfirmedOverlap st b"
    using assms(1,2) by (intro scan_other) simp_all
  have p3: "(status b = denied \<or> status b = canceled_by_user \<or> status b = canceled_by_owner)
              \<and> \<not> otherConfirmedOverlap st b \<longrightarrow>
              statusOf (db (approveBooking e st b)) (booking.id b) = Some confirmed
              \<and> toasts (approveBooking e st b) \<noteq> [ApprovalConflict]"
  proof (intro impI, elim conjE)
    assume s: "status b = denied \<or> status b = canceled_by_user \<or> status b = canceled_by_owner"
      and n: "\<not> otherConfirmedOverlap st b"
    from s have "status b \<noteq> confirmed" by auto
    with other n have "\<not> ?found" by simp
    then have "getDocs_fails e \<or> \<not> ?found" by simp
    from approveBooking_proceeds_status[OF this assms(2,4)]
    show "statusOf (db (approveBooking e st b)) (booking.id b) = Some confirmed
          \<and> toasts (approveBooking e st b) \<noteq> [ApprovalConflict]"
      by simp
  qed
  have p4: "(status b = denied \<or> status b = canceled_by_user \<or> status b = canceled_by_owner)
              \<and> otherConfirmedOverlap st b \<longrightarrow>
              approveBooking e st b = \<lparr>db = st, toasts = [ApprovalConflict], thrown = False\<rparr>"
  proof (intro impI, elim conjE)
    assume s: "status b = denied \<or> status b = canceled_by_user \<or> status b = canceled_by_owner"
      and o: "otherConfirmedOverlap st b"
    from s have "status b \<noteq> confirmed" by auto
    with other o have "?found" by simp
    from approve_refused[OF assms(3) this]
    show "approveBooking e st b = \<lparr>db = st, toasts = [ApprovalConflict], thrown = False\<rparr>" .
  qed
  have p5: "status b = confirmed \<longrightarrow>
              statusOf (db (approveBooking e st b)) (booking.id b) = Some confirmed"
  proof
    assume c: "status b = confirmed"
    show "statusOf (db (approveBooking e st b)) (booking.id b) = Some confirmed"
    proof (cases ?found)
      case True
      from approve_refused[OF assms(3) True]
      have "db (approveBooking e st b) = st" by simp
      then show ?thesis
        using statusOf_member[OF assms(1,2)] c by simp
    next
      case False
      then have "getDocs_fails e \<or> \<not> ?found" by simp
      from approveBooking_proceeds_status(1)[OF this assms(2,4)] show ?thesis .
    qed
  qed
  have p6: "\<forall>e' oid. \<forall>r \<in> set (getBookingRequestsForOwner e' st oid). status r = pending"
    by (simp add: getBookingRequestsForOwner_def)
  show ?thesis
    using approveBooking_status_arg[where e=e and st=st and b=b and z=z] approveBooking_toasts[of e st b] p3 p4 p5 p6
    by blast
qed

theorem approveBooking_no_status_guard_witness:
  "statusOf (storeOf [bookingB denied]) ''B'' = Some denied
   \<and> statusOf (db (approveBooking (okEnv []) (storeOf [bookingB denied]) (bookingB denied))) ''B''
       = Some confirmed
   \<and> toasts (approveBooking (okEnv []) (storeOf [bookingB denied]) (bookingB denied))
       \<noteq> [ApprovalConflict]"
proof -
  let ?st = "storeOf [bookingB denied]"
  let ?b = "bookingB denied"
  let ?e = "okEnv []"
  have wf: "wf_store ?st" and m: "?b \<in> set (bookings ?st)"
    and ok: "\<not> getDocs_fails ?e" and w: "\<not> updateBooking_fails ?e (booking.id ?b)"
    by (simp_all add: sample_defs wf_store_def)
  have d: "status ?b = denied" and i: "booking.id ?b = ''B''"
    by (simp_all add: sample_defs)
  have n: "\<not> otherConfirmedOverlap ?st ?b"
    by (simp add: sample_defs query_defs)
  have "statusOf (db (approveBooking ?e ?st ?b)) (booking.id ?b) = Some confirmed
        \<and> toasts (approveBooking ?e ?st ?b) \<noteq> [ApprovalConflict]"
    using approveBooking_no_status_guard[OF wf m ok w, THEN conjunct2, THEN conjunct2, THEN conjunct1]
      d n by simp
  moreover have "statusOf ?st ''B'' = Some denied"
    using statusOf_member[OF wf m] d i by simp
  ultimately show ?thesis
    using i by simp
qed

text \<open>
  C6 as stated fails: the approval of a stored denied booking, with nothing else booked, is
  not refused; the booking becomes confirmed and the approval toast is shown.
\<close>

theorem approveBooking_status_guard_counterexample:
  "statusOf (storeOf [bookingB denied]) ''B'' = Some denied
   \<and> toasts (approveBooking (okEnv []) (storeOf [bookingB denied]) (bookingB denied)) = [BookingApproved]
   \<and> statusOf (db (approveBooking (okEnv []) (storeOf [bookingB denied]) (bookingB denied))) ''B''
       = Some confirmed"
  by (simp add: approveBooking_def sample_defs store_defs query_defs tm_simps)


section \<open>Properties of deleteBooking\<close>

lemma deleteBooking_logged_in:
  "\<not> deleteDoc_fails e \<Longrightarrow>
   deleteBooking e (Some u) st bid =
     \<lparr>db = st\<lparr>bookings := filter (\<lambda>b. booking.id b \<noteq> bid) (bookings st)\<rparr>,
      toasts = [BookingDeleted], thrown = False\<rparr>"
  by (simp add: deleteBooking_def deleteBookingFromFirestore_def)

lemma find_id_filtered: "find (\<lambda>c. booking.id c = i) (filter (\<lambda>b. booking.id b \<noteq> i) bs) = None"
  by (induction bs) auto

text \<open>
  C5, as amended (\<^verbatim>\<open>deleteBooking\<close> has no status guard). For a logged-in user and a
  \<^verbatim>\<open>deleteDoc\<close> that succeeds, \<^verbatim>\<open>deleteBooking\<close> removes the booking with the given id
  whatever its status, pending and confirmed included, and shows the success toast; no
  other booking is touched. The restriction to denied, canceled_by_user and
  canceled_by_owner is the gate \<^verbatim>\<open>canDelete\<close> of the booking card alone, which offers
  deletion exactly for these three statuses.
\<close>

theorem deleteBooking_no_status_guard:
  "(\<not> deleteDoc_fails e \<longrightarrow>
      toasts (deleteBooking e (Some u) st bid) = [BookingDeleted]
      \<and> \<not> thrown (deleteBooking e (Some u) st bid)
      \<and> bookings (db (deleteBooking e (Some u) st bid)) = filter (\<lambda>c. booking.id c \<noteq> bid) (bookings st)
      \<and> lookupBooking (db (deleteBooking e (Some u) st bid)) bid = None)
   \<and> (canDelete b \<longleftrightarrow> status b = denied \<or> status b = canceled_by_user \<or> status b = canceled_by_owner)
   \<and> (canDelete b \<longleftrightarrow> status b \<noteq> pending \<and> status b \<noteq> confirmed)"
proof (intro conjI impI)
  assume ok: "\<not> deleteDoc_fails e"
  show "toasts (deleteBooking e (Some u) st bid) = [BookingDeleted]"
    and "\<not> thrown (deleteBooking e (Some u) st bid)"
    and "bookings (db (deleteBooking e (Some u) st bid)) = filter (\<lambda>c. booking.id c \<noteq> bid) (bookings st)"
    and "lookupBooking (db (deleteBooking e (Some u) st bid)) bid = None"
    by (simp_all add: deleteBooking_logged_in[OF ok] lookupBooking_def find_id_filtered)
next
  show "canDelete b \<longleftrightarrow> status b = denied \<or> status b = canceled_by_user \<or> status b = canceled_by_owner"
    by (auto simp: canDelete_def)
  show "canDelete b \<longleftrightarrow> status b \<noteq> pending \<and> status b \<noteq> confirmed"
    by (cases "status b") (auto simp: canDelete_def)
qed

theorem deleteBooking_no_status_guard_witness:
  "\<not> deleteDoc_fails (okEnv [])
   \<and> toasts (deleteBooking (okEnv []) (Some owner1) (storeOf [bookingA confirmed, bookingB denied]) ''B'')
       = [BookingDeleted]
   \<and> bookings (db (deleteBooking (okEnv []) (Some owner1) (storeOf [bookingA confirmed, bookingB denied]) ''B''))
       = [bookingA confirmed]
   \<and> canDelete (bookingB denied) \<and> \<not> canDelete (bookingA confirmed)"
proof -
  let ?st = "storeOf [bookingA confirmed, bookingB denied]"
  have ok: "\<not> deleteDoc_fails (okEnv [])"
    by (simp add: sample_defs)
  note t = deleteBooking_no_status_guard[of "okEnv []" owner1 ?st "''B''"]
  have "toasts (deleteBooking (okEnv []) (Some owner1) ?st ''B'') = [BookingDeleted]"
    using t[of "bookingB denied", THEN conjunct1] ok by simp
  moreover have "bookings (db (deleteBooking (okEnv []) (Some owner1) ?st ''B'')) = [bookingA confirmed]"
    using t[of "bookingB denied", THEN conjunct1] ok by (simp add: sample_defs)
  moreover have "canDelete (bookingB denied)"
    using t[of "bookingB denied", THEN conjunct2, THEN conjunct1] by (simp add: sample_defs)
  moreover have "\<not> canDelete (bookingA confirmed)"
    using t[of "bookingA confirmed", THEN conjunct2, THEN conjunct1] by (simp add: sample_defs)
  ultimately show ?thesis using ok by simp
qed

text \<open>
  C5 as stated fails: \<^verbatim>\<open>deleteBooking\<close> on a pending and on a confirmed booking is not
  refused; the record is removed and the success toast is shown.
\<close>

theorem deleteBooking_status_guard_counterexample:
  "statusOf (storeOf [bookingA confirmed, bookingB pending]) ''B'' = Some pending
   \<and> toasts (deleteBooking (okEnv []) (Some owner1) (storeOf [bookingA confirmed, bookingB pending]) ''B'')
       = [BookingDeleted]
   \<and> bookings (db (deleteBooking (okEnv []) (Some owner1) (storeOf [bookingA confirmed, bookingB pending]) ''B''))
       = [bookingA confirmed]
   \<and> statusOf (storeOf [bookingA confirmed, bookingB pending]) ''A'' = Some confirmed
   \<and> toasts (deleteBooking (okEnv []) (Some owner1) (storeOf [bookingA confirmed, bookingB pending]) ''A'')
       = [BookingDeleted]
   \<and> bookings (db (deleteBooking (okEnv []) (Some owner1) (storeOf [bookingA confirmed, bookingB pending]) ''A''))
       = [bookingB pending]"
  by (simp add: deleteBooking_def sample_defs store_defs query_defs)



section \<open>No double booking\<close>

lemma noDoubleBooking_iff:
  "noDoubleBooking st \<longleftrightarrow> (\<forall>a \<in> set (bookings st). \<forall>c \<in> set (bookings st). \<not> doubleBooked a c)"
  by (simp add: noDoubleBooking_def list_all_iff)

lemma doubleBooked_sym: "doubleBooked a c \<Longrightarrow> doubleBooked c a"
  unfolding doubleBooked_def using windowsOverlap_sym[of a c] by auto

text \<open>
  A change of the stored bookings that keeps ids and makes no booking confirmed keeps the
  store well formed and free of double bookings.
\<close>

lemma narrowing_keeps:
  assumes m: "bookings st' = map f (bookings st)"
    and i: "\<And>b. booking.id (f b) = booking.id b"
    and c: "\<And>b. status (f b) = confirmed \<Longrightarrow> f b = b"
    and wf: "wf_store st" and nd: "noDoubleBooking st"
  shows "wf_store st' \<and> noDoubleBooking st'"
proof
  have e: "map booking.id (map f (bookings st)) = map booking.id (bookings st)"
    by (simp add: i)
  show "wf_store st'"
    unfolding wf_store_def m e using wf by (simp add: wf_store_def)
  show "noDoubleBooking st'"
    unfolding noDoubleBooking_iff m
  proof (intro ballI notI)
    fix x y
    assume "x \<in> set (map f (bookings st))" "y \<in> set (map f (bookings st))"
      and d: "doubleBooked x y"
    then obtain a b where a: "a \<in> set (bookings st)" "x = f a"
      and b: "b \<in> set (bookings st)" "y = f b"
      by auto
    from d have "status x = confirmed" "status y = confirmed"
      by (simp_all add: doubleBooked_def)
    then have "x = a" "y = b"
      using c a(2) b(2) by auto
    with d a(1) b(1) nd show False
      by (auto simp: noDoubleBooking_iff)
  qed
qed

lemma updateStatus_keeps:
  assumes "updateBookingStatusInFirestore e st i s = Some st'" and "s \<noteq> confirmed"
    and "wf_store st" and "noDoubleBooking st"
  shows "wf_store st' \<and> noDoubleBooking st'"
  using updateStatus_Some(1)[OF assms(1)] _ _ assms(3,4)
  by (rule narrowing_keeps) (auto simp: assms(2))

lemma removal_keeps:
  assumes "bookings st' = filter P (bookings st)" and "wf_store st" and "noDoubleBooking st"
  shows "wf_store st' \<and> noDoubleBooking st'"
  using assms by (auto simp: wf_store_def noDoubleBooking_iff distinct_map_filter)

lemma new_pending_keeps:
  assumes "bookings st' = bookings st @ [b]" and "status b = pending"
    and "booking.id b \<notin> set (map booking.id (bookings st))"
    and "wf_store st" and "noDoubleBooking st"
  shows "wf_store st' \<and> noDoubleBooking st'"
  using assms by (auto simp: wf_store_def noDoubleBooking_iff doubleBooked_def)

text \<open>Each operation other than the approval.\<close>

lemma denyBooking_keeps:
  assumes "wf_store st" "noDoubleBooking st"
  shows "wf_store (db (denyBooking e st b)) \<and> noDoubleBooking (db (denyBooking e st b))"
proof (cases "updateBookingStatusInFirestore e st (booking.id b) denied")
  case None
  then show ?thesis using assms by (simp add: denyBooking_def)
next
  case (Some st')
  from updateStatus_keeps[OF Some _ assms] Some show ?thesis
    by (simp add: denyBooking_def)
qed

lemma cancelBookingByOwner_keeps:
  assumes "wf_store st" "noDoubleBooking st"
  shows "wf_store (db (cancelBookingByOwner e st b)) \<and> noDoubleBooking (db (cancelBookingByOwner e st b))"
proof (cases "updateBookingStatusInFirestore e st (booking.id b) canceled_by_owner")
  case None
  then show ?thesis using assms by (simp add: cancelBookingByOwner_def)
next
  case (Some st')
  from updateStatus_keeps[OF Some _ assms] Some show ?thesis
    by (simp add: cancelBookingByOwner_def)
qed

lemma cancelBookingByUser_keeps:
  assumes "wf_store st" "noDoubleBooking st"
  shows "wf_store (db (cancelBookingByUser e u st b)) \<and> noDoubleBooking (db (cancelBookingByUser e u st b))"
proof (cases "updateBookingStatusInFirestore e st (booking.id b) canceled_by_user")
  case None
  then show ?thesis using assms by (simp add: cancelBookingByUser_def split: option.splits)
next
  case (Some st')
  from updateStatus_keeps[OF Some _ assms] Some assms show ?thesis
    by (simp add: cancelBookingByUser_def split: option.splits)
qed

lemma deleteBooking_keeps:
  assumes "wf_store st" "noDoubleBooking st"
  shows "wf_store (db (deleteBooking e u st i)) \<and> noDoubleBooking (db (deleteBooking e u st i))"
proof (cases "deleteBooking e u st i = \<lparr>db = st\<lparr>bookings := filter (\<lambda>b. booking.id b \<noteq> i) (bookings st)\<rparr>,
      toasts = [BookingDeleted], thrown = False\<rparr>")
  case True
  have "bookings (db (deleteBooking e u st i)) = filter (\<lambda>b. booking.id b \<noteq> i) (bookings st)"
    by (simp add: True)
  from removal_keeps[OF this assms] show ?thesis .
next
  case False
  then have "db (deleteBooking e u st i) = st"
    by (auto simp: deleteBooking_def deleteBookingFromFirestore_def split: option.splits if_splits)
  then show ?thesis using assms by simp
qed

lemma requestBooking_bookings:
  "bookings (db (requestBooking e u st l s t)) = bookings st
   \<or> (\<exists>b. bookings (db (requestBooking e u st l s t)) = bookings st @ [b]
          \<and> status b = pending \<and> booking.id b = newDocId e)"
  by (auto simp: requestBooking_def addBookingToFirestore_def Let_def split: option.splits)

lemma requestBooking_keeps:
  assumes "wf_store st" "noDoubleBooking st" "newDocId e \<notin> set (map booking.id (bookings st))"
  shows "wf_store (db (requestBooking e u st l s t)) \<and> noDoubleBooking (db (requestBooking e u st l s t))"
  using requestBooking_bookings[of e u st l s t]
proof (elim disjE exE conjE)
  assume "bookings (db (requestBooking e u st l s t)) = bookings st"
  then show ?thesis
    using assms(1,2) by (simp add: wf_store_def noDoubleBooking_def)
next
  fix b
  assume "bookings (db (requestBooking e u st l s t)) = bookings st @ [b]"
    and "status b = pending" and "booking.id b = newDocId e"
  then show ?thesis
    using new_pending_keeps[of "db (requestBooking e u st l s t)" st b] assms by simp
qed

lemma addListing_bookings: "bookings (db (addListing e u st d)) = bookings st"
  by (auto simp: addListing_def addListingToFirestore_def Let_def split: option.splits)

lemma cancelConflicting_keeps:
  "wf_store st \<Longrightarrow> noDoubleBooking st \<Longrightarrow>
   wf_store (fst (cancelConflicting e d bs st ts)) \<and> noDoubleBooking (fst (cancelConflicting e d bs st ts))"
proof (induction bs arbitrary: st ts)
  case Nil
  then show ?case by simp
next
  case (Cons b bs)
  show ?case
  proof (cases "isConflictWithListing d b \<and> (status b = confirmed \<or> status b = pending)")
    case True
    have "wf_store (db (cancelBookingByOwner e st b)) \<and> noDoubleBooking (db (cancelBookingByOwner e st b))"
      using cancelBookingByOwner_keeps Cons.prems by blast
    then show ?thesis
      using True Cons.IH by (simp add: Let_def)
  next
    case False
    then show ?thesis
      using Cons.IH Cons.prems by auto
  qed
qed

lemma updateListingInFirestore_bookings:
  "updateListingInFirestore e st i d = Some st' \<Longrightarrow> bookings st' = bookings st"
  by (auto simp: updateListingInFirestore_def split: if_splits)

lemma updateListing_bookings:
  "bookings (db (updateListing e (Some u) st i d)) =
     bookings (fst (cancelConflicting e d (getExistingBookingsForListing e st i (listingData.date d)) st []))"
  by (auto simp: updateListing_def Let_def updateListingInFirestore_bookings
      split: option.splits prod.splits)

lemma updateListing_keeps:
  assumes "wf_store st" "noDoubleBooking st"
  shows "wf_store (db (updateListing e u st i d)) \<and> noDoubleBooking (db (updateListing e u st i d))"
proof (cases u)
  case None
  then show ?thesis using assms by (simp add: updateListing_def)
next
  case (Some v)
  show ?thesis
    using cancelConflicting_keeps[OF assms, of e d "getExistingBookingsForListing e st i (listingData.date d)" "[]"]
    by (simp add: Some wf_store_def noDoubleBooking_def updateListing_bookings)
qed

text \<open>
  The approval, called with a snapshot of the stored booking and with the query of its scan
  succeeding.
\<close>

lemma snapshotOf_iff:
  "snapshotOf st b \<longleftrightarrow> (\<forall>c \<in> set (bookings st). booking.id c = booking.id b \<longrightarrow> c\<lparr>status := status b\<rparr> = b)"
  by (auto simp: snapshotOf_def list_all_iff)

lemma snapshot_fields:
  assumes "c\<lparr>status := z\<rparr> = b"
  shows "listingId c = listingId b" "booking.date c = booking.date b"
    "booking.startTime c = booking.startTime b" "booking.endTime c = booking.endTime b"
  using assms by auto

lemma approveBooking_keeps:
  assumes wf: "wf_store st" and nd: "noDoubleBooking st"
    and snap: "snapshotOf st b" and scan: "\<not> getDocs_fails e"
  shows "wf_store (db (approveBooking e st b)) \<and> noDoubleBooking (db (approveBooking e st b))"
proof (cases "db (approveBooking e st b) = st")
  case True
  then show ?thesis using wf nd by simp
next
  case False
  let ?st1 = "db (approveBooking e st b)"
  let ?f = "\<lambda>c. if booking.id c = booking.id b then c\<lparr>status := confirmed\<rparr> else c"
  from False have u: "updateBookingStatusInFirestore e st (booking.id b) confirmed = Some ?st1"
    using approveBooking_db_cases[of e st b] by simp
  have none: "\<not> (\<exists>c \<in> set (bookings st). status c = confirmed \<and> listingId c = listingId b
            \<and> booking.date c = booking.date b \<and> windowsOverlap b c)"
  proof
    assume "\<exists>c \<in> set (bookings st). status c = confirmed \<and> listingId c = listingId b
            \<and> booking.date c = booking.date b \<and> windowsOverlap b c"
    from approve_refused[OF scan this] False show False by simp
  qed
  have bs: "bookings ?st1 = map ?f (bookings st)"
    using updateStatus_Some(1)[OF u] .
  have wf1: "wf_store ?st1"
    using updateStatus_wf[OF u wf] .
  have clash: False
    if x: "x \<in> set (bookings st)" "booking.id x = booking.id b"
      and y: "y \<in> set (bookings st)" "booking.id y \<noteq> booking.id b"
      and d: "doubleBooked (?f x) (?f y)"
    for x y
  proof -
    have xb: "x\<lparr>status := status b\<rparr> = b"
      using snap x by (simp add: snapshotOf_iff)
    have w: "windowsOverlap b y = windowsOverlap (x\<lparr>status := confirmed\<rparr>) y"
      using snapshot_fields[OF xb] by (simp add: windowsOverlap_def)
    from d x(2) y(2) have "status y = confirmed" "listingId y = listingId x"
      "booking.date y = booking.date x" "windowsOverlap (x\<lparr>status := confirmed\<rparr>) y"
      by (auto simp: doubleBooked_def)
    with w snapshot_fields(1,2)[OF xb] y(1) none show False
      by auto
  qed
  have "noDoubleBooking ?st1"
    unfolding noDoubleBooking_iff bs
  proof (intro ballI notI)
    fix p q
    assume "p \<in> set (map ?f (bookings st))" "q \<in> set (map ?f (bookings st))"
      and d: "doubleBooked p q"
    then obtain x y where x: "x \<in> set (bookings st)" "p = ?f x"
      and y: "y \<in> set (bookings st)" "q = ?f y"
      by auto
    from d have ne: "booking.id p \<noteq> booking.id q"
      by (simp add: doubleBooked_def)
    have ids: "booking.id p = booking.id x" "booking.id q = booking.id y"
      using x(2) y(2) by auto
    show False
    proof (cases "booking.id x = booking.id b")
      case True
      then have "booking.id y \<noteq> booking.id b"
        using ne ids by simp
      from clash[OF x(1) True y(1) this] d x(2) y(2) show False by simp
    next
      case xn: False
      show False
      proof (cases "booking.id y = booking.id b")
        case True
        from clash[OF y(1) True x(1) xn] doubleBooked_sym[OF d] x(2) y(2) show False by simp
      next
        case False
        with xn x(2) y(2) have "p = x" "q = y" by auto
        with d x(1) y(1) nd show False
          by (auto simp: noDoubleBooking_iff)
      qed
    qed
  qed
  with wf1 show ?thesis by simp
qed

text \<open>Every admissible call whose scan query succeeds keeps the two properties.\<close>

lemma exec_keeps:
  assumes "wf_store st" "noDoubleBooking st" "admissible st a" "scanSucceeds a"
  shows "wf_store (exec a st) \<and> noDoubleBooking (exec a st)"
proof (cases a)
  case (RequestBooking e u l s t)
  then show ?thesis using requestBooking_keeps[of st e u l s t] assms by simp
next
  case (ApproveBooking e b)
  then show ?thesis using approveBooking_keeps[of st b e] assms by simp
next
  case (DenyBooking e b)
  then show ?thesis using denyBooking_keeps[OF assms(1,2)] by simp
next
  case (CancelBookingByUser e u b)
  then show ?thesis using cancelBookingByUser_keeps[OF assms(1,2)] by simp
next
  case (CancelBookingByOwner e b)
  then show ?thesis using cancelBookingByOwner_keeps[OF assms(1,2)] by simp
next
  case (DeleteBooking e u i)
  then show ?thesis using deleteBooking_keeps[OF assms(1,2)] by simp
next
  case (AddListing e u d)
  then show ?thesis
    using assms(1,2) by (simp add: wf_store_def noDoubleBooking_def addListing_bookings)
next
  case (UpdateListing e u i d)
  then show ?thesis using updateListing_keeps[OF assms(1,2)] by simp
qed

lemma run_keeps:
  "wf_store st \<Longrightarrow> noDoubleBooking st \<Longrightarrow> admissibleRun st acts \<Longrightarrow> list_all scanSucceeds acts \<Longrightarrow>
   wf_store (run st acts) \<and> noDoubleBooking (run st acts)"
proof (induction acts arbitrary: st)
  case Nil
  then show ?case by simp
next
  case (Cons a acts)
  from Cons.prems have "wf_store (exec a st) \<and> noDoubleBooking (exec a st)"
    using exec_keeps[of st a] by simp
  with Cons.IH[of "exec a st"] Cons.prems show ?case
    by simp
qed

text \<open>Only the approval makes a booking confirmed.\<close>

lemma updateStatus_confirmed_old:
  assumes "updateBookingStatusInFirestore e st i s = Some st'" "s \<noteq> confirmed"
    and "c \<in> set (bookings st')" "status c = confirmed"
  shows "c \<in> set (bookings st)"
  using assms(3,4) unfolding updateStatus_Some(1)[OF assms(1)]
  by (auto simp: assms(2) split: if_splits)

lemma cancelBookingByOwner_confirmed_old:
  assumes "c \<in> set (bookings (db (cancelBookingByOwner e st b)))" "status c = confirmed"
  shows "c \<in> set (bookings st)"
proof (cases "updateBookingStatusInFirestore e st (booking.id b) canceled_by_owner")
  case None
  then show ?thesis using assms by (simp add: cancelBookingByOwner_def)
next
  case (Some st')
  then have "db (cancelBookingByOwner e st b) = st'"
    by (simp add: cancelBookingByOwner_def)
  with updateStatus_confirmed_old[OF Some _ _ assms(2)] assms(1) show ?thesis by simp
qed

lemma cancelConflicting_confirmed_old:
  "c \<in> set (bookings (fst (cancelConflicting e d bs st ts))) \<Longrightarrow> status c = confirmed \<Longrightarrow>
   c \<in> set (bookings st)"
proof (induction bs arbitrary: st ts)
  case Nil
  then show ?case by simp
next
  case (Cons b bs)
  show ?case
  proof (cases "isConflictWithListing d b \<and> (status b = confirmed \<or> status b = pending)")
    case True
    with Cons.prems have "c \<in> set (bookings (fst (cancelConflicting e d bs (db (cancelBookingByOwner e st b))
        (ts @ toasts (cancelBookingByOwner e st b)))))"
      by (simp add: Let_def)
    from Cons.IH[OF this Cons.prems(2)] show ?thesis
      using cancelBookingByOwner_confirmed_old Cons.prems(2) by blast
  next
    case False
    with Cons.prems Cons.IH show ?thesis by auto
  qed
qed

lemma exec_confirmed_old:
  assumes "\<not> isApproval a" "c \<in> set (bookings (exec a st))" "status c = confirmed"
  shows "c \<in> set (bookings st)"
proof (cases a)
  case (RequestBooking e u l s t)
  then show ?thesis
    using requestBooking_bookings[of e u st l s t] assms(2,3) by auto
next
  case (ApproveBooking e b)
  then show ?thesis using assms(1) by simp
next
  case (DenyBooking e b)
  show ?thesis
  proof (cases "updateBookingStatusInFirestore e st (booking.id b) denied")
    case None
    then show ?thesis using assms DenyBooking by (simp add: denyBooking_def)
  next
    case (Some st')
    then have "exec a st = st'"
      by (simp add: DenyBooking denyBooking_def)
    with updateStatus_confirmed_old[OF Some _ _ assms(3)] assms(2) show ?thesis by simp
  qed
next
  case (CancelBookingByUser e u b)
  show ?thesis
  proof (cases "exec a st = st")
    case True
    then show ?thesis using assms by simp
  next
    case False
    then obtain st' where s: "updateBookingStatusInFirestore e st (booking.id b) canceled_by_user = Some st'"
      and "exec a st = st'"
      by (auto simp: CancelBookingByUser cancelBookingByUser_def split: option.splits if_splits)
    with updateStatus_confirmed_old[OF s _ _ assms(3)] assms(2) show ?thesis by simp
  qed
next
  case (CancelBookingByOwner e b)
  then show ?thesis
    using cancelBookingByOwner_confirmed_old assms(2,3) by simp
next
  case (DeleteBooking e u i)
  then show ?thesis
    using assms(2)
    by (auto simp: deleteBooking_def deleteBookingFromFirestore_def split: option.splits if_splits)
next
  case (AddListing e u d)
  then show ?thesis using assms(2) by (simp add: addListing_bookings)
next
  case (UpdateListing e u i d)
  show ?thesis
  proof (cases u)
    case None
    then show ?thesis using assms(2) UpdateListing by (simp add: updateListing_def)
  next
    case (Some v)
    then show ?thesis
      using assms(2,3) cancelConflicting_confirmed_old
      by (simp add: UpdateListing updateListing_bookings)
  qed
qed



text \<open>The sample requests create the sample bookings.\<close>

lemma request_A:
  "db (requestBooking (okEnv ''A'') (Some booker2) (storeOf bs)
        (listingL ''2024-09-20'' ''09:00'' ''17:00'') ''10:00'' ''12:00'')
   = storeOf (bs @ [bookingA pending])"
  by (simp add: requestBooking_def addBookingToFirestore_def fullLocation_def isNaN_def tm_simps Let_def
      sample_defs booker2_def listingData.defs listing.defs)

lemma request_B:
  "db (requestBooking (okEnv ''B'') (Some booker2) (storeOf bs)
        (listingL ''2024-09-20'' ''09:00'' ''17:00'') ''11:00'' ''13:00'')
   = storeOf (bs @ [bookingB pending])"
  by (simp add: requestBooking_def addBookingToFirestore_def fullLocation_def isNaN_def tm_simps Let_def
      sample_defs booker2_def listingData.defs listing.defs)

lemma approve_A_alone:
  "db (approveBooking (okEnv []) (storeOf [bookingA pending]) (bookingA pending))
   = storeOf [bookingA confirmed]"
  by (simp add: approveBooking_def sample_defs store_defs query_defs tm_simps)

lemma approve_A_first:
  "db (approveBooking (okEnv []) (storeOf [bookingA pending, bookingB pending]) (bookingA pending))
   = storeOf [bookingA confirmed, bookingB pending]"
  by (simp add: approveBooking_def sample_defs store_defs query_defs tm_simps)

lemma approve_B_refused:
  "db (approveBooking (okEnv []) (storeOf [bookingA confirmed, bookingB pending]) (bookingB pending))
   = storeOf [bookingA confirmed, bookingB pending]"
  by (simp add: approveBooking_def sample_defs store_defs query_defs tm_simps)

lemma approve_B_failing_query:
  "db (approveBooking failingQuery (storeOf [bookingA confirmed, bookingB pending]) (bookingB pending))
   = storeOf [bookingA confirmed, bookingB confirmed]"
  by (simp add: approveBooking_def sample_defs store_defs query_defs tm_simps)

lemma deny_B:
  "db (denyBooking (okEnv []) (storeOf [bookingA confirmed, bookingB pending]) (bookingB pending))
   = storeOf [bookingA confirmed, bookingB denied]"
  by (simp add: denyBooking_def sample_defs store_defs)

lemma delete_B:
  "db (deleteBooking (okEnv []) (Some booker2) (storeOf [bookingA confirmed, bookingB denied]) ''B'')
   = storeOf [bookingA confirmed]"
  by (simp add: deleteBooking_def sample_defs store_defs)

lemmas sample_steps =
  request_A[of "[]", simplified] request_A request_B[of "[]", simplified] request_B
  approve_A_alone approve_A_first approve_B_refused approve_B_failing_query deny_B delete_B

lemma sample_ids:
  "booking.id (bookingA z) = ''A''" "booking.id (bookingB z) = ''B''"
  "newDocId (okEnv i) = i" "bookings (storeOf bs) = bs"
  "getDocs_fails (okEnv i) = False"
  "status (bookingA z) = z" "status (bookingB z) = z"
  by (simp_all add: sample_defs)

lemma sample_snapshots:
  "(bookingA z)\<lparr>status := z'\<rparr> = bookingA z'" "(bookingB z)\<lparr>status := z'\<rparr> = bookingB z'"
  by (simp_all add: sample_defs)


text \<open>
  C2, as amended (no double booking). From a store with no bookings, after any sequence of
  the core operations in which every new booking gets an id no stored booking has, every
  approval is called with a snapshot of the stored booking, and the query of every
  approval's conflict scan succeeds, no two distinct confirmed bookings on the same listing
  and date have overlapping windows. \<^verbatim>\<open>approveBooking\<close> is the only operation that makes a
  booking confirmed: after any other operation every confirmed booking of the store was
  there, confirmed, before.
\<close>

theorem no_double_booking_reachable:
  assumes "bookings st0 = []" and "admissibleRun st0 acts" and "list_all scanSucceeds acts"
  shows "(\<forall>a \<in> set (bookings (run st0 acts)). \<forall>c \<in> set (bookings (run st0 acts)).
            \<not> (booking.id a \<noteq> booking.id c \<and> status a = confirmed \<and> status c = confirmed
               \<and> listingId a = listingId c \<and> booking.date a = booking.date c
               \<and> windowsOverlap a c))
         \<and> (\<forall>a st c. \<not> isApproval a \<and> c \<in> set (bookings (exec a st)) \<and> status c = confirmed
               \<longrightarrow> c \<in> set (bookings st))"
proof
  have "wf_store st0" "noDoubleBooking st0"
    using assms(1) by (simp_all add: wf_store_def noDoubleBooking_def)
  from run_keeps[OF this assms(2,3)] have "noDoubleBooking (run st0 acts)"
    by simp
  then show "\<forall>a \<in> set (bookings (run st0 acts)). \<forall>c \<in> set (bookings (run st0 acts)).
            \<not> (booking.id a \<noteq> booking.id c \<and> status a = confirmed \<and> status c = confirmed
               \<and> listingId a = listingId c \<and> booking.date a = booking.date c
               \<and> windowsOverlap a c)"
    unfolding noDoubleBooking_iff doubleBooked_def .
  show "\<forall>a st c. \<not> isApproval a \<and> c \<in> set (bookings (exec a st)) \<and> status c = confirmed
               \<longrightarrow> c \<in> set (bookings st)"
    using exec_confirmed_old by blast
qed

theorem no_double_booking_reachable_witness:
  "bookings (storeOf []) = []
   \<and> admissibleRun (storeOf []) scenarioRun
   \<and> list_all scanSucceeds scenarioRun
   \<and> run (storeOf []) scenarioRun = storeOf [bookingA confirmed]
   \<and> noDoubleBooking (run (storeOf []) scenarioRun)"
proof -
  have h1: "bookings (storeOf []) = []"
    by (simp add: storeOf_def)
  have h2: "admissibleRun (storeOf []) scenarioRun"
    by (simp add: scenarioRun_def sample_steps sample_ids snapshotOf_def sample_snapshots)
  have h3: "list_all scanSucceeds scenarioRun"
    by (simp add: scenarioRun_def sample_ids)
  have r: "run (storeOf []) scenarioRun = storeOf [bookingA confirmed]"
    by (simp add: scenarioRun_def sample_steps)
  have "noDoubleBooking (run (storeOf []) scenarioRun)"
    unfolding noDoubleBooking_iff doubleBooked_def
    using no_double_booking_reachable[OF h1 h2 h3, THEN conjunct1] .
  with h1 h2 h3 r show ?thesis by simp
qed

text \<open>
  C2 as stated fails when the query of a conflict scan fails: after the requests A
  (10:00-12:00) and B (11:00-13:00) and the approval of A, the approval of B with a failing
  query goes through, and both are confirmed on the same listing and date.
\<close>

theorem no_double_booking_counterexample:
  "bookings (storeOf []) = []
   \<and> admissibleRun (storeOf []) doubleBookingRun
   \<and> run (storeOf []) doubleBookingRun = storeOf [bookingA confirmed, bookingB confirmed]
   \<and> doubleBooked (bookingA confirmed) (bookingB confirmed)
   \<and> \<not> noDoubleBooking (run (storeOf []) doubleBookingRun)"
proof -
  have h1: "bookings (storeOf []) = []"
    by (simp add: storeOf_def)
  have h2: "admissibleRun (storeOf []) doubleBookingRun"
    by (simp add: doubleBookingRun_def sample_steps sample_ids snapshotOf_def sample_snapshots)
  have r: "run (storeOf []) doubleBookingRun = storeOf [bookingA confirmed, bookingB confirmed]"
    by (simp add: doubleBookingRun_def sample_steps)
  have d: "doubleBooked (bookingA confirmed) (bookingB confirmed)"
    by (simp add: doubleBooked_def windowsOverlap_def spec_overlaps_def sample_defs tm_simps)
  have "\<not> noDoubleBooking (storeOf [bookingA confirmed, bookingB confirmed])"
    using d by (simp add: noDoubleBooking_def sample_ids)
  with h1 h2 r d show ?thesis by simp
qed



section \<open>Properties of updateListing\<close>

text \<open>
  What the loop of \<^verbatim>\<open>updateListing\<close> does to the store when no status update fails: the
  bookings of the list that conflict with the new listing data and are confirmed or pending
  become canceled_by_owner, all others stay as they are.
\<close>

lemma cancelBookingByOwner_bookings:
  assumes "\<not> updateBooking_fails e (booking.id b)"
    and "booking.id b \<in> set (map booking.id (bookings st))"
  shows "bookings (db (cancelBookingByOwner e st b)) =
           map (\<lambda>c. if booking.id c = booking.id b then c\<lparr>status := canceled_by_owner\<rparr> else c) (bookings st)"
  using assms by (simp add: cancelBookingByOwner_def updateBookingStatusInFirestore_def)

lemma cancelConflicting_bookings:
  assumes "\<forall>i. \<not> updateBooking_fails e i"
    and "set (map booking.id bs) \<subseteq> set (map booking.id (bookings st))"
  shows "bookings (fst (cancelConflicting e d bs st ts)) =
           map (\<lambda>c. if booking.id c \<in> booking.id ` {b \<in> set bs. toCancel d b}
                     then c\<lparr>status := canceled_by_owner\<rparr> else c) (bookings st)"
  using assms(2)
proof (induction bs arbitrary: st ts)
  case Nil
  then show ?case by simp
next
  case (Cons b bs)
  show ?case
  proof (cases "toCancel d b")
    case False
    have "{x \<in> set (b # bs). toCancel d x} = {x \<in> set bs. toCancel d x}"
      using False by auto
    moreover have "bookings (fst (cancelConflicting e d (b # bs) st ts)) =
        bookings (fst (cancelConflicting e d bs st ts))"
      using False by (auto simp: toCancel_def)
    ultimately show ?thesis
      using Cons.IH[of st ts] Cons.prems by simp
  next
    case True
    let ?st1 = "db (cancelBookingByOwner e st b)"
    let ?f = "\<lambda>c. if booking.id c = booking.id b then c\<lparr>status := canceled_by_owner\<rparr> else c"
    have b1: "bookings ?st1 = map ?f (bookings st)"
      using cancelBookingByOwner_bookings[of e b st] assms(1) Cons.prems by simp
    then have ids: "map booking.id (bookings ?st1) = map booking.id (bookings st)"
      by (simp add: comp_def)
    have step: "bookings (fst (cancelConflicting e d (b # bs) st ts)) =
        bookings (fst (cancelConflicting e d bs ?st1 (ts @ toasts (cancelBookingByOwner e st b))))"
      using True by (simp add: toCancel_def Let_def)
    have sub: "set (map booking.id bs) \<subseteq> set (map booking.id (bookings ?st1))"
      using Cons.prems ids by simp
    have S: "booking.id ` {x \<in> set (b # bs). toCancel d x} =
        insert (booking.id b) (booking.id ` {x \<in> set bs. toCancel d x})"
      using True by auto
    show ?thesis
      unfolding step Cons.IH[OF sub] b1 S by (simp add: comp_def)
  qed
qed

lemma cascade_selects:
  assumes "wf_store st" "c \<in> set (bookings st)"
  shows "booking.id c \<in> booking.id ` {b \<in> set (bookings st). Q b} \<longleftrightarrow> Q c"
proof
  assume "booking.id c \<in> booking.id ` {b \<in> set (bookings st). Q b}"
  then obtain b where b: "b \<in> set (bookings st)" "Q b" "booking.id b = booking.id c"
    by auto
  from same_id_same_booking[OF assms(1,2) b(1) b(3)] b(2) show "Q c"
    by simp
next
  assume "Q c"
  then show "booking.id c \<in> booking.id ` {b \<in> set (bookings st). Q b}"
    using assms(2) by auto
qed

text \<open>
  The effect of \<^verbatim>\<open>updateListing\<close> on the bookings, for a logged-in user, a query that
  succeeds and status updates that succeed: exactly the confirmed and pending bookings of
  the listing \<^emph>\<open>on the new date\<close> whose time strings compare as outside the new window are
  canceled.
\<close>

lemma updateListing_effect:
  assumes "wf_store st" "\<not> getDocs_fails e" "\<forall>i. \<not> updateBooking_fails e i"
  shows "bookings (db (updateListing e (Some u) st lid d)) =
           map (\<lambda>c. if listingId c = lid \<and> booking.date c = listingData.date d \<and> toCancel d c
                     then c\<lparr>status := canceled_by_owner\<rparr> else c) (bookings st)"
proof -
  let ?P = "\<lambda>b. listingId b = lid \<and> booking.date b = listingData.date d"
  have f: "getExistingBookingsForListing e st lid (listingData.date d) = filter ?P (bookings st)"
    using assms(2) by (simp add: getExistingBookingsForListing_def)
  have "set (map booking.id (filter ?P (bookings st))) \<subseteq> set (map booking.id (bookings st))"
    by auto
  from cancelConflicting_bookings[OF assms(3) this, of d "[]"]
  have "bookings (db (updateListing e (Some u) st lid d)) =
      map (\<lambda>c. if booking.id c \<in> booking.id ` {b \<in> set (bookings st). ?P b \<and> toCancel d b}
                then c\<lparr>status := canceled_by_owner\<rparr> else c) (bookings st)"
    by (simp add: updateListing_bookings f)
  also have "\<dots> = map (\<lambda>c. if ?P c \<and> toCancel d c
                     then c\<lparr>status := canceled_by_owner\<rparr> else c) (bookings st)"
  proof (rule map_cong[OF refl])
    fix c
    assume "c \<in> set (bookings st)"
    from cascade_selects[OF assms(1) this, of "\<lambda>b. ?P b \<and> toCancel d b"]
    show "(if booking.id c \<in> booking.id ` {b \<in> set (bookings st). ?P b \<and> toCancel d b}
           then c\<lparr>status := canceled_by_owner\<rparr> else c) =
          (if ?P c \<and> toCancel d c then c\<lparr>status := canceled_by_owner\<rparr> else c)"
      by simp
  qed
  finally show ?thesis
    by (simp add: conj_assoc)
qed

text \<open>
  A booking on another date than the new one is never touched, whatever the listing's
  previous date was: the date test of the loop cannot succeed.
\<close>

lemma updateListing_other_date_untouched:
  assumes "wf_store st" "\<not> getDocs_fails e" "\<forall>i. \<not> updateBooking_fails e i"
    and "b \<in> set (bookings st)" "booking.date b \<noteq> listingData.date d"
  shows "b \<in> set (bookings (db (updateListing e (Some u) st lid d)))"
  unfolding updateListing_effect[OF assms(1,2,3)] using assms(4,5) by force

text \<open>
  On time strings with a two-digit hour the comparison of the strings is the comparison of
  the minutes.
\<close>

lemma of_char_digit: "isDigit c \<Longrightarrow> int (of_char c) = digitVal c + 48"
  by (simp add: digitVal_def)

lemma str_lt_padded:
  assumes "timeToMinutes a = Some x" "timeToMinutes b = Some y" "length a = 5" "length b = 5"
  shows "str_lt a b \<longleftrightarrow> x < y"
proof -
  have ta: "test_time_format a" and tb: "test_time_format b"
    using assms(1,2) timeToMinutes_bad_format by fastforce+
  from test_time_format_shape[OF ta] assms(3)
  obtain a1 a2 a3 a4 where a: "a = [a1, a2, CHR '':'', a3, a4]"
    and da: "isDigit a1" "isDigit a2" "isDigit a3" "isDigit a4"
    by auto
  from test_time_format_shape[OF tb] assms(4)
  obtain b1 b2 b3 b4 where b: "b = [b1, b2, CHR '':'', b3, b4]"
    and db: "isDigit b1" "isDigit b2" "isDigit b3" "isDigit b4"
    by auto
  have x: "x = (10 * digitVal a1 + digitVal a2) * 60 + (10 * digitVal a3 + digitVal a4)"
    and xr: "10 * digitVal a3 + digitVal a4 \<le> 59"
    using assms(1) da by (auto simp: a timeToMinutes_HH_MM split: if_splits)
  have y: "y = (10 * digitVal b1 + digitVal b2) * 60 + (10 * digitVal b3 + digitVal b4)"
    and yr: "10 * digitVal b3 + digitVal b4 \<le> 59"
    using assms(2) db by (auto simp: b timeToMinutes_HH_MM split: if_splits)
  have c: "\<And>p q. isDigit p \<Longrightarrow> isDigit q \<Longrightarrow>
      ((of_char p :: nat) < of_char q) = (digitVal p < digitVal q)"
    by (auto simp: digitVal_def)
  note r = digitVal_range[OF da(1)] digitVal_range[OF da(2)] digitVal_range[OF da(3)]
    digitVal_range[OF da(4)] digitVal_range[OF db(1)] digitVal_range[OF db(2)]
    digitVal_range[OF db(3)] digitVal_range[OF db(4)]
  have "str_lt a b \<longleftrightarrow>
      (digitVal a1 < digitVal b1 \<or> (digitVal a1 = digitVal b1 \<and>
        (digitVal a2 < digitVal b2 \<or> (digitVal a2 = digitVal b2 \<and>
          (digitVal a3 < digitVal b3 \<or> (digitVal a3 = digitVal b3 \<and> digitVal a4 < digitVal b4))))))"
    unfolding a b using da db by (simp add: c)
  also have "\<dots> \<longleftrightarrow> x < y"
    unfolding x y using r xr yr by auto
  finally show ?thesis .
qed


lemma isConflictWithListing_padded:
  assumes "booking.date b = listingData.date d"
    and "timeToMinutes (listingData.startTime d) = Some os" "length (listingData.startTime d) = 5"
    and "timeToMinutes (listingData.endTime d) = Some oe" "length (listingData.endTime d) = 5"
    and "timeToMinutes (booking.startTime b) = Some is" "length (booking.startTime b) = 5"
    and "timeToMinutes (booking.endTime b) = Some ie" "length (booking.endTime b) = 5"
  shows "isConflictWithListing d b \<longleftrightarrow> \<not> withinWindow d b"
  using str_lt_padded[OF assms(6) assms(2) assms(7) assms(3)]
    str_lt_padded[OF assms(4) assms(8) assms(5) assms(9)] assms(1)
  by (auto simp: isConflictWithListing_def withinWindow_def str_gt_def assms(2,4,6,8))

text \<open>
  With a query and status updates that succeed, and time strings that all have a
  two-digit hour, the cascade cancels a confirmed or pending booking of the listing on the
  new date when its window is not within the new window, and leaves it as it is when its
  window is within the new window.
\<close>

lemma updateListing_cascade_padded:
  assumes wf: "wf_store st" and q: "\<not> getDocs_fails e" and w: "\<forall>i. \<not> updateBooking_fails e i"
    and b: "b \<in> set (bookings st)" "listingId b = lid" "booking.date b = listingData.date d"
      "status b = confirmed \<or> status b = pending"
    and t: "timeToMinutes (listingData.startTime d) = Some os" "length (listingData.startTime d) = 5"
      "timeToMinutes (listingData.endTime d) = Some oe" "length (listingData.endTime d) = 5"
      "timeToMinutes (booking.startTime b) = Some is" "length (booking.startTime b) = 5"
      "timeToMinutes (booking.endTime b) = Some ie" "length (booking.endTime b) = 5"
  shows "(\<not> withinWindow d b \<longrightarrow>
            statusOf (db (updateListing e (Some u) st lid d)) (booking.id b) = Some canceled_by_owner)
         \<and> (withinWindow d b \<longrightarrow>
            lookupBooking (db (updateListing e (Some u) st lid d)) (booking.id b) = Some b)"
proof -
  let ?st' = "db (updateListing e (Some u) st lid d)"
  let ?g = "\<lambda>c. if listingId c = lid \<and> booking.date c = listingData.date d \<and> toCancel d c
                 then c\<lparr>status := canceled_by_owner\<rparr> else c"
  have bs: "bookings ?st' = map ?g (bookings st)"
    using updateListing_effect[OF wf q w] .
  have gi: "booking.id (?g c) = booking.id c" for c
    by simp
  have "map booking.id (map ?g (bookings st)) = map booking.id (bookings st)"
    unfolding map_map comp_def gi ..
  then have wf': "wf_store ?st'"
    using wf by (simp only: wf_store_def bs)
  have mem: "?g b \<in> set (bookings ?st')"
    unfolding bs set_map using b(1) by (rule imageI)
  have c: "toCancel d b \<longleftrightarrow> \<not> withinWindow d b"
    using isConflictWithListing_padded[OF b(3) t] b(4) by (simp add: toCancel_def)
  have i: "booking.id (?g b) = booking.id b"
    by simp
  from lookupBooking_member[OF wf' mem] i
  have l: "lookupBooking ?st' (booking.id b) = Some (?g b)"
    by simp
  show ?thesis
    using l c b(2,3) by (auto simp: statusOf_def)
qed

text \<open>
  C3 (the cascade compares the time strings, not the minutes). A pending booking
  9:30-9:45 lies within the new window 09:00-12:00 and is canceled all the same, because
  \<open>''9:45''\<close> compares greater than \<open>''12:00''\<close> as a string; a confirmed booking 9:00-11:00
  is not within the new window 10:00-12:00 and is left untouched, because \<open>''9:00''\<close> does
  not compare less than \<open>''10:00''\<close>.
\<close>

theorem updateListing_cascade_string_comparison:
  "withinWindow (dataL ''2024-09-20'' ''09:00'' ''12:00'')
      (bookingOn ''X'' ''2024-09-20'' ''9:30'' ''9:45'' pending)
   \<and> updateListing (okEnv []) (Some owner1)
         (storeOf [bookingOn ''X'' ''2024-09-20'' ''9:30'' ''9:45'' pending]) ''L''
         (dataL ''2024-09-20'' ''09:00'' ''12:00'')
       = \<lparr>db = \<lparr>bookings = [bookingOn ''X'' ''2024-09-20'' ''9:30'' ''9:45'' canceled_by_owner],
                  listings = [listingL ''2024-09-20'' ''09:00'' ''12:00'']\<rparr>,
          toasts = [ConflictingBookingCanceled, ListingUpdated], thrown = False\<rparr>
   \<and> \<not> withinWindow (dataL ''2024-09-20'' ''10:00'' ''12:00'')
      (bookingOn ''Y'' ''2024-09-20'' ''9:00'' ''11:00'' confirmed)
   \<and> updateListing (okEnv []) (Some owner1)
         (storeOf [bookingOn ''Y'' ''2024-09-20'' ''9:00'' ''11:00'' confirmed]) ''L''
         (dataL ''2024-09-20'' ''10:00'' ''12:00'')
       = \<lparr>db = \<lparr>bookings = [bookingOn ''Y'' ''2024-09-20'' ''9:00'' ''11:00'' confirmed],
                  listings = [listingL ''2024-09-20'' ''10:00'' ''12:00'']\<rparr>,
          toasts = [ListingUpdated], thrown = False\<rparr>"
  by (simp add: updateListing_def cancelBookingByOwner_def isConflictWithListing_def str_gt_def
      withinWindow_def sample_defs store_defs tm_simps listingData.defs listing.defs Let_def)

text \<open>
  C4 (the cascade is run on the bookings of the new date). Listing L is moved from
  2024-09-20 to 2024-09-21; the confirmed booking A on 2024-09-20 is not fetched, hence
  not canceled: it stays confirmed on a date the listing no longer has.
\<close>

theorem updateListing_date_change_strands_booking:
  "booking.date (bookingA confirmed) = ''2024-09-20''
   \<and> listingId (bookingA confirmed) = ''L''
   \<and> updateListing (okEnv []) (Some owner1) (storeOf [bookingA confirmed]) ''L''
         (dataL ''2024-09-21'' ''09:00'' ''17:00'')
       = \<lparr>db = \<lparr>bookings = [bookingA confirmed],
                  listings = [listingL ''2024-09-21'' ''09:00'' ''17:00'']\<rparr>,
          toasts = [ListingUpdated], thrown = False\<rparr>"
  by (simp add: updateListing_def sample_defs store_defs listingData.defs listing.defs Let_def)


section \<open>Properties of addListing\<close>

lemma isDuplicateOf_padded:
  assumes "timeToMinutes (listingData.startTime d) = Some ns" "length (listingData.startTime d) = 5"
    and "timeToMinutes (listingData.endTime d) = Some ne" "length (listingData.endTime d) = 5"
    and "timeToMinutes (listingData.startTime l) = Some es" "length (listingData.startTime l) = 5"
    and "timeToMinutes (listingData.endTime l) = Some ee" "length (listingData.endTime l) = 5"
  shows "isDuplicateOf d l \<longleftrightarrow> listingWindowsOverlap d l"
  using str_lt_padded[OF assms(1) assms(7) assms(2) assms(8)]
    str_lt_padded[OF assms(5) assms(3) assms(6) assms(4)]
  by (auto simp: isDuplicateOf_def listingWindowsOverlap_def spec_overlaps_def str_gt_def assms(1,3,5,7))

lemma addListing_duplicate_iff:
  "toasts (addListing e (Some u) st d) = [DuplicateListing] \<longleftrightarrow>
     \<not> getDocs_fails e \<and>
     (\<exists>l \<in> set (listings st). address l = address d \<and> city l = city d \<and> zipCode l = zipCode d
         \<and> listingData.date l = listingData.date d \<and> isDuplicateOf d l)"
  by (auto simp: addListing_def checkForExistingListing_def addListingToFirestore_def Let_def list_ex_iff
      split: option.splits)

text \<open>
  C9 (the duplicate test compares the time strings, not the minutes). A new listing
  9:30-11:00 at the address, city, zip code and date of the listing 09:00-17:00 overlaps
  it and is inserted all the same, because \<open>''9:30''\<close> does not compare less than
  \<open>''17:00''\<close>; a new listing 20:00-22:00 does not overlap the listing 1:00-3:00 and is
  rejected as a duplicate, because the strings compare as overlapping.
\<close>

theorem addListing_duplicate_string_comparison:
  "listingWindowsOverlap (dataL ''2024-09-20'' ''9:30'' ''11:00'') (listingL ''2024-09-20'' ''09:00'' ''17:00'')
   \<and> addListing (okEnv ''L2'') (Some owner1)
        \<lparr>bookings = [], listings = [listingL ''2024-09-20'' ''09:00'' ''17:00'']\<rparr>
        (dataL ''2024-09-20'' ''9:30'' ''11:00'')
      = \<lparr>db = \<lparr>bookings = [],
                 listings = [listingL ''2024-09-20'' ''09:00'' ''17:00'',
                             listingData.extend (dataL ''2024-09-20'' ''9:30'' ''11:00'')
                               \<lparr>listing.id = ''L2'', listing.ownerId = ''user-1''\<rparr>]\<rparr>,
         toasts = [ListedSuccessfully], thrown = False\<rparr>
   \<and> \<not> listingWindowsOverlap (dataL ''2024-09-20'' ''20:00'' ''22:00'') (listingL ''2024-09-20'' ''1:00'' ''3:00'')
   \<and> addListing (okEnv ''L2'') (Some owner1)
        \<lparr>bookings = [], listings = [listingL ''2024-09-20'' ''1:00'' ''3:00'']\<rparr>
        (dataL ''2024-09-20'' ''20:00'' ''22:00'')
      = \<lparr>db = \<lparr>bookings = [], listings = [listingL ''2024-09-20'' ''1:00'' ''3:00'']\<rparr>,
         toasts = [DuplicateListing], thrown = True\<rparr>"
  by (simp add: addListing_def isDuplicateOf_def str_gt_def listingWindowsOverlap_def spec_overlaps_def
      sample_defs store_defs tm_simps listingData.defs listing.defs Let_def)

end
